theory Spec2Isabelle
  imports
    Complex_Main
    "HOL-Library.AList"
    "HOL-Library.Char_ord"
    "HOL-Library.List_Lexorder"
    "HOL-Library.Log_Nat"
    "HOL-Library.Sublist"
begin

chapter \<open>The review pipeline of src/index.mjs\<close>

section \<open>JavaScript values\<close>

text \<open>
  Configuration files and the description cache are JSON documents. An object is an
  association list in key order; a missing key reads as \<open>undefined\<close>, which is \<open>None\<close>
  here. A number is an IEEE 754 double, given as the real number it denotes; the
  arithmetic on doubles is in the next section. A string is a sequence of UTF-16 code
  units; the model has the code units below 256, one \<open>char\<close> each, so that a string
  with a code unit from 256 on is outside it.
\<close>

datatype json =
    JNull
  | JBool bool
  | JNum real
  | JStr string
  | JArr "json list"
  | JObj "(string \<times> json) list"

type_synonym jobj = "(string \<times> json) list"

text \<open>The value of \<open>!!v\<close>.\<close>

fun truthy :: "json option \<Rightarrow> bool" where
  "truthy None = False"
| "truthy (Some JNull) = False"
| "truthy (Some (JBool b)) = b"
| "truthy (Some (JNum n)) = (n \<noteq> 0)"
| "truthy (Some (JStr s)) = (s \<noteq> [])"
| "truthy (Some (JArr xs)) = True"
| "truthy (Some (JObj kvs)) = True"

text \<open>\<open>typeof v === 'string'\<close>, \<open>'boolean'\<close>, \<open>'number'\<close> and \<open>Array.isArray(v)\<close>.\<close>

fun isString :: "json option \<Rightarrow> bool" where
  "isString (Some (JStr s)) = True"
| "isString v = False"

fun isBoolean :: "json option \<Rightarrow> bool" where
  "isBoolean (Some (JBool b)) = True"
| "isBoolean v = False"

fun isArray :: "json option \<Rightarrow> bool" where
  "isArray (Some (JArr xs)) = True"
| "isArray v = False"

text \<open>
  The truthiness of a string-valued option (\<open>step.url\<close>, \<open>action.name\<close>): absent and
  empty are both falsy.
\<close>

fun nonEmpty :: "string option \<Rightarrow> bool" where
  "nonEmpty None = False"
| "nonEmpty (Some s) = (s \<noteq> [])"

text \<open>\<open>v || d\<close> on an optional string and on an optional number.\<close>

fun orElse :: "string option \<Rightarrow> string \<Rightarrow> string" where
  "orElse None d = d"
| "orElse (Some s) d = (if s = [] then d else s)"

fun orElseNat :: "nat option \<Rightarrow> nat \<Rightarrow> nat" where
  "orElseNat None d = d"
| "orElseNat (Some n) d = (if n = 0 then d else n)"

text \<open>\<open>v || null\<close> on an optional string.\<close>

fun orNull :: "string option \<Rightarrow> string option" where
  "orNull None = None"
| "orNull (Some s) = (if s = [] then None else Some s)"

section \<open>Numbers\<close>

text \<open>
  Rounding to the nearest double, ties to even. \<open>expo x\<close> is the binary exponent
  \<open>e\<close> of a positive \<open>x\<close>, the one with \<open>2 ^ e \<le> x < 2 ^ (e + 1)\<close>; \<open>ulp x\<close> is the
  spacing of the doubles around \<open>x\<close>, which is \<open>2 ^ (e - 52)\<close> and stops shrinking at
  the subnormal numbers; \<open>fl x\<close> is the multiple of \<open>ulp x\<close> nearest to \<open>x\<close>. Overflow
  beyond the largest double, \<open>Infinity\<close> and \<open>NaN\<close> are not represented.
\<close>

definition round_even :: "real \<Rightarrow> int" where
  "round_even y =
     (let f = \<lfloor>y\<rfloor>; r = y - of_int f
      in if r < 1 / 2 then f else if 1 / 2 < r then f + 1 else if even f then f else f + 1)"

definition expo :: "real \<Rightarrow> int" where
  "expo x = (if 1 \<le> x then bitlen \<lfloor>x\<rfloor> - 1 else - bitlen (\<lceil>1 / x\<rceil> - 1))"

definition ulp :: "real \<Rightarrow> real" where
  "ulp x = 2 powi (max (expo \<bar>x\<bar>) (- 1022) - 52)"

definition fl :: "real \<Rightarrow> real" where
  "fl x = (if x = 0 then 0 else of_int (round_even (x / ulp x)) * ulp x)"

text \<open>The operators \<open>+\<close>, \<open>-\<close>, \<open>*\<close> and \<open>/\<close> on doubles.\<close>

definition fadd :: "real \<Rightarrow> real \<Rightarrow> real" where
  "fadd a b = fl (a + b)"

definition fsub :: "real \<Rightarrow> real \<Rightarrow> real" where
  "fsub a b = fl (a - b)"

definition fmul :: "real \<Rightarrow> real \<Rightarrow> real" where
  "fmul a b = fl (a * b)"

definition fdiv :: "real \<Rightarrow> real \<Rightarrow> real" where
  "fdiv a b = fl (a / b)"

section \<open>Strings\<close>

text \<open>
  The white space of \<open>\\s\<close> and of \<open>trim\<close> among the code units below 256: tab, line
  feed, vertical tab, form feed, carriage return, space and the no-break space U+00A0.
\<close>

definition isSpace :: "char \<Rightarrow> bool" where
  "isSpace c =
     (c \<in> set [CHR '' '', CHR 0x09, CHR 0x0A, CHR 0x0B, CHR 0x0C, CHR 0x0D, CHR 0xA0])"

text \<open>\<open>s.trim()\<close>.\<close>

definition trim :: "string \<Rightarrow> string" where
  "trim s = rev (dropWhile isSpace (rev (dropWhile isSpace s)))"

text \<open>\<open>s.includes(pat)\<close>.\<close>

fun includes_str :: "string \<Rightarrow> string \<Rightarrow> bool" where
  "includes_str [] pat = (pat = [])"
| "includes_str (c # cs) pat = (prefix pat (c # cs) \<or> includes_str cs pat)"

text \<open>\<open>String(n)\<close> for a non-negative integer.\<close>

definition digit :: "nat \<Rightarrow> char" where
  "digit d = char_of (of_char (CHR ''0'') + d)"

fun String_nat :: "nat \<Rightarrow> string" where
  "String_nat n = (if n < 10 then [digit n] else String_nat (n div 10) @ [digit (n mod 10)])"

declare String_nat.simps [simp del]

text \<open>\<open>s.padStart(n, '0')\<close>.\<close>

definition padStart :: "nat \<Rightarrow> string \<Rightarrow> string" where
  "padStart n s = replicate (n - length s) (CHR ''0'') @ s"

text \<open>
  \<open>s.toLowerCase()\<close>. Among the code units below 256 the upper-case letters are
  \<open>A\<close> to \<open>Z\<close> and U+00C0 to U+00DE without the multiplication sign U+00D7; each has
  its lower-case letter 32 places on.
\<close>

definition lowerChar :: "char \<Rightarrow> char" where
  "lowerChar c =
     (if (CHR ''A'' \<le> c \<and> c \<le> CHR ''Z'')
         \<or> (CHR 0xC0 \<le> c \<and> c \<le> CHR 0xDE \<and> c \<noteq> CHR 0xD7)
      then char_of (of_char c + (32::nat)) else c)"

definition toLowerCase :: "string \<Rightarrow> string" where
  "toLowerCase s = map lowerChar s"

text \<open>\<open>s.replace(/\s+/g, '-')\<close>: every maximal run of whitespace becomes one dash.\<close>

function replaceSpaces :: "string \<Rightarrow> string" where
  "replaceSpaces [] = []"
| "replaceSpaces (c # cs) =
     (if isSpace c then CHR ''-'' # replaceSpaces (dropWhile isSpace cs)
      else c # replaceSpaces cs)"
  by pat_completeness auto
termination
  by (relation "measure length") (auto simp: less_Suc_eq_le length_dropWhile_le)

text \<open>\<open>s.replace(pat, rep)\<close> with a string pattern: the first occurrence only.\<close>

fun replaceFirst :: "string \<Rightarrow> string \<Rightarrow> string \<Rightarrow> string" where
  "replaceFirst pat rep [] = (if pat = [] then rep else [])"
| "replaceFirst pat rep (c # cs) =
     (if prefix pat (c # cs) then rep @ drop (length pat) (c # cs)
      else c # replaceFirst pat rep cs)"

section \<open>Paths\<close>

text \<open>
  The POSIX functions of the \<open>path\<close> module. \<open>splitSlash\<close> cuts a path at every
  separator (\<open>splitAcc\<close> carries the segment being read, last character first) and
  \<open>joinSlash\<close> puts segments together again.
\<close>

fun splitAcc :: "string \<Rightarrow> string \<Rightarrow> string list" where
  "splitAcc acc [] = [rev acc]"
| "splitAcc acc (c # cs) =
     (if c = CHR ''/'' then rev acc # splitAcc [] cs else splitAcc (c # acc) cs)"

definition splitSlash :: "string \<Rightarrow> string list" where
  "splitSlash p = splitAcc [] p"

fun joinSlash :: "string list \<Rightarrow> string" where
  "joinSlash [] = []"
| "joinSlash [s] = s"
| "joinSlash (s # t # ss) = s @ ''/'' @ joinSlash (t # ss)"

text \<open>
  One round of the loop of \<open>normalizeString\<close>: \<open>res\<close> holds the segments kept so
  far, the last one first. An empty segment and \<open>.\<close> are dropped; \<open>..\<close> removes the
  segment before it, and is kept only where there is none to remove and the path is
  relative.
\<close>

definition normStep :: "bool \<Rightarrow> string \<Rightarrow> string list \<Rightarrow> string list" where
  "normStep allowAboveRoot seg res =
     (if seg = [] \<or> seg = ''.'' then res
      else if seg = ''..'' then
        (case res of
           [] \<Rightarrow> if allowAboveRoot then [''..''] else []
         | s # ss \<Rightarrow> if s = ''..'' then (if allowAboveRoot then ''..'' # s # ss else s # ss)
                     else ss)
      else seg # res)"

text \<open>\<open>path.normalize(p)\<close>.\<close>

definition normalize :: "string \<Rightarrow> string" where
  "normalize p =
     (if p = [] then ''.''
      else
        let isAbsolute = (hd p = CHR ''/'');
            trailingSeparator = (last p = CHR ''/'');
            body = joinSlash (rev (fold (normStep (\<not> isAbsolute)) (splitSlash p) []))
        in if body = []
           then (if isAbsolute then ''/'' else if trailingSeparator then ''./'' else ''.'')
           else (if isAbsolute then ''/'' else []) @ body
                @ (if trailingSeparator then ''/'' else []))"

text \<open>
  \<open>path.join(dir, name)\<close>: the arguments that are not empty, joined by a separator
  and normalised.
\<close>

definition path_join :: "string \<Rightarrow> string \<Rightarrow> string" where
  "path_join dir name =
     (if dir = [] \<and> name = [] then ''.''
      else if dir = [] then normalize name
      else if name = [] then normalize dir
      else normalize (dir @ ''/'' @ name))"

text \<open>
  \<open>path.dirname(p)\<close>: separators at the end are skipped, then the last segment, then
  one separator; the first character is never examined.
\<close>

definition dirname :: "string \<Rightarrow> string" where
  "dirname p =
     (if p = [] then ''.''
      else
        let hasRoot = (hd p = CHR ''/'');
            r = dropWhile (\<lambda>c. c \<noteq> CHR ''/'')
                  (dropWhile (\<lambda>c. c = CHR ''/'') (rev (tl p)))
        in if r = [] then (if hasRoot then ''/'' else ''.'')
           else if hasRoot \<and> tl r = [] then ''//''
           else hd p # rev (tl r))"

text \<open>\<open>path.basename(p)\<close>: the last segment, separators at the end skipped.\<close>

definition basename :: "string \<Rightarrow> string" where
  "basename p =
     rev (takeWhile (\<lambda>c. c \<noteq> CHR ''/'') (dropWhile (\<lambda>c. c = CHR ''/'') (rev p)))"

text \<open>
  \<open>path.extname(p)\<close>: from the last dot of the last segment on; empty when there is
  no dot, when the only dot is the first character of the segment, and for \<open>..\<close>.
\<close>

definition extname :: "string \<Rightarrow> string" where
  "extname p =
     (let b = basename p; e = rev (takeWhile (\<lambda>c. c \<noteq> CHR ''.'') (rev b))
      in if CHR ''.'' \<notin> set b \<or> length e + 1 = length b \<or> b = ''..'' then []
         else ''.'' @ e)"

section \<open>Errors\<close>

text \<open>
  Every \<open>throw\<close> of the source is a value: \<open>Error msg\<close> for \<open>new Error(msg)\<close>,
  \<open>TypeError\<close> for a property read on \<open>undefined\<close> or \<open>null\<close>,
  \<open>PlaywrightError pg c\<close> for the exception of a failed page call, and
  \<open>Wrapped prefix e\<close> for \<open>new Error(prefix + e.message)\<close>.
\<close>

datatype page_id = MainPage | VideoPage

datatype page_call =
    Goto string
  | WaitForTimeout nat
  | Screenshot string bool
  | Click "string option"
  | Fill "string option" "string option"

datatype error =
    Error string
  | TypeError
  | PlaywrightError page_id page_call
  | Wrapped string error

definition bindE :: "error + 'a \<Rightarrow> ('a \<Rightarrow> error + 'b) \<Rightarrow> error + 'b" where
  "bindE m f = (case m of Inl e \<Rightarrow> Inl e | Inr x \<Rightarrow> f x)"

section \<open>validateConfig\<close>

text \<open>
  The configuration object as \<open>main\<close> hands it to \<open>validateConfig\<close>: the defaults,
  overwritten by the parsed file and the command line. \<open>baseUrl\<close> and \<open>outputDir\<close>
  come from the process environment and are parameters.
\<close>

definition DEFAULT_CONFIG :: "string \<Rightarrow> string \<Rightarrow> jobj" where
  "DEFAULT_CONFIG baseUrl outputDir =
     [(''baseUrl'', JStr baseUrl),
      (''outputDir'', JStr outputDir),
      (''viewport'', JObj [(''width'', JNum 1920), (''height'', JNum 1080)]),
      (''videoFormat'', JStr ''slideshow''),
      (''slideshowFps'', JNum 2),
      (''gifQuality'', JStr ''medium''),
      (''screenshotFormat'', JStr ''png''),
      (''useAI'', JBool True),
      (''aiProvider'', JStr ''openai''),
      (''aiModel'', JStr ''gpt-4o''),
      (''maxScreenshotsPerStep'', JNum 10)]"

text \<open>A property read \<open>v.k\<close> on a JSON value: it throws on \<open>null\<close>.\<close>

fun getProp :: "json \<Rightarrow> string \<Rightarrow> error + json option" where
  "getProp JNull k = Inl TypeError"
| "getProp (JObj kvs) k = Inr (map_of kvs k)"
| "getProp v k = Inr None"

definition titleOk :: "jobj \<Rightarrow> bool" where
  "titleOk config =
     (case map_of config ''title'' of
        Some (JStr s) \<Rightarrow> s \<noteq> [] \<and> trim s \<noteq> []
      | _ \<Rightarrow> False)"

text \<open>The loop over \<open>config.steps\<close>; \<open>i\<close> is the index of the head of the list.\<close>

fun validateSteps :: "nat \<Rightarrow> json list \<Rightarrow> error + unit" where
  "validateSteps i [] = Inr ()"
| "validateSteps i (step # rest) =
     bindE (getProp step ''name'') (\<lambda>name.
       if \<not> truthy name \<or> \<not> isString name
       then Inl (Error (''Step '' @ String_nat (i + 1) @ '': name is required''))
       else bindE (getProp step ''actions'') (\<lambda>actions.
         if truthy actions \<and> \<not> isArray actions
         then Inl (Error (''Step '' @ [CHR 0x22] @ (case name of Some (JStr s) \<Rightarrow> s | _ \<Rightarrow> [])
                          @ [CHR 0x22] @ '': actions must be an array''))
         else validateSteps (i + 1) rest))"

text \<open>
  The checks of \<open>validateConfig\<close> before the one on \<open>videoFormat\<close>, in source order:
  the title, the presence of \<open>url\<close> or \<open>steps\<close>, \<open>steps\<close> being an array, each step.
\<close>

definition validateHead :: "jobj \<Rightarrow> error + unit" where
  "validateHead config =
     (if \<not> titleOk config then Inl (Error ''--title is required and cannot be empty'')
      else if \<not> truthy (map_of config ''url'') \<and> \<not> truthy (map_of config ''steps'')
      then Inl (Error ''Either --url or --config with steps is required'')
      else if truthy (map_of config ''steps'') \<and> \<not> isArray (map_of config ''steps'')
      then Inl (Error ''Config.steps must be an array'')
      else (case map_of config ''steps'' of
              Some (JArr steps) \<Rightarrow> validateSteps 0 steps
            | _ \<Rightarrow> Inr ()))"

definition videoFormatError :: error where
  "videoFormatError =
     Error (''videoFormat must be either '' @ [CHR 0x22] @ ''gif'' @ [CHR 0x22] @ '' or ''
            @ [CHR 0x22] @ ''webm'' @ [CHR 0x22])"

definition gifQualityError :: error where
  "gifQualityError =
     Error (''gifQuality must be '' @ [CHR 0x22] @ ''low'' @ [CHR 0x22] @ '', ''
            @ [CHR 0x22] @ ''medium'' @ [CHR 0x22] @ '', or '' @ [CHR 0x22] @ ''high''
            @ [CHR 0x22])"

text \<open>
  The checks after the one on \<open>videoFormat\<close>. \<open>validUrl v\<close> says whether \<open>new URL(v)\<close>
  returns; the URL parser is outside the repository and is a parameter.
\<close>

definition validateTail :: "(json \<Rightarrow> bool) \<Rightarrow> jobj \<Rightarrow> error + unit" where
  "validateTail validUrl config =
     (if truthy (map_of config ''gifQuality'')
         \<and> map_of config ''gifQuality'' \<notin> Some ` JStr ` {''low'', ''medium'', ''high''}
      then Inl gifQualityError
      else if map_of config ''useAI'' \<noteq> None \<and> \<not> isBoolean (map_of config ''useAI'')
      then Inl (Error ''useAI must be a boolean'')
      else if truthy (map_of config ''aiModel'') \<and> \<not> isString (map_of config ''aiModel'')
      then Inl (Error ''aiModel must be a string'')
      else if truthy (map_of config ''aiProvider'') \<and> \<not> isString (map_of config ''aiProvider'')
      then Inl (Error ''aiProvider must be a string'')
      else if truthy (map_of config ''clientflowTaskUrl'')
              \<and> \<not> validUrl (the (map_of config ''clientflowTaskUrl''))
      then Inl (Error ''clientflowTaskUrl must be a valid URL'')
      else if (case map_of config ''maxScreenshotsPerStep'' of
                 None \<Rightarrow> False
               | Some (JNum n) \<Rightarrow> n \<le> 0
               | Some _ \<Rightarrow> True)
      then Inl (Error ''maxScreenshotsPerStep must be a positive number'')
      else if truthy (map_of config ''description'') \<and> \<not> isString (map_of config ''description'')
      then Inl (Error ''description must be a string'')
      else if truthy (map_of config ''clientRequest'')
              \<and> \<not> isString (map_of config ''clientRequest'')
      then Inl (Error ''clientRequest must be a string'')
      else Inr ())"

definition validateConfig :: "(json \<Rightarrow> bool) \<Rightarrow> jobj \<Rightarrow> error + unit" where
  "validateConfig validUrl config =
     bindE (validateHead config) (\<lambda>_.
       if truthy (map_of config ''videoFormat'')
          \<and> map_of config ''videoFormat'' \<notin> Some ` JStr ` {''gif'', ''webm''}
       then Inl videoFormatError
       else validateTail validUrl config)"

section \<open>The world outside the program\<close>

text \<open>
  The file system is an association list from paths to contents. Image and video bytes
  are opaque (\<open>Media\<close>); the concatenation list written for the transcoder and JSON
  documents keep their structure. \<open>JSON.stringify\<close> followed by \<open>JSON.parse\<close> is
  taken to be the identity on JSON values.
\<close>

datatype fcontent =
    Media
  | ConcatList "(string \<times> real option) list"
  | JsonText json

type_synonym filesys = "(string \<times> fcontent) list"

definition fileExists :: "filesys \<Rightarrow> string \<Rightarrow> bool" where
  "fileExists fs p = (map_of fs p \<noteq> None)"

text \<open>\<open>fs.unlink(p).catch(() => {})\<close>: a missing file is not an error.\<close>

definition unlink :: "string \<Rightarrow> filesys \<Rightarrow> filesys" where
  "unlink p fs = AList.delete p fs"

text \<open>
  \<open>fs.readdir(dir)\<close>: the names of the entries directly under \<open>dir\<close>, files and
  subdirectories alike. Paths are compared as strings: the paths that the run builds
  all come out of \<open>path.join\<close>, normalised.
\<close>

definition readdir :: "string \<Rightarrow> filesys \<Rightarrow> string list" where
  "readdir dir fs =
     remdups (map (\<lambda>p. takeWhile (\<lambda>c. c \<noteq> CHR ''/'') (drop (length dir + 1) p))
                  (filter (prefix (dir @ ''/'')) (map fst fs)))"

text \<open>The commands handed to \<open>execSync\<close>, by what they read and write.\<close>

datatype cmd =
    PaletteGen string string string
  | PaletteUse string string string string
  | FrameAt string real string
  | Concat string string

datatype key_type = direct | gateway

text \<open>The outcome of one \<open>generateText\<close> call: the text, or an error with its
  \<open>status\<close> and \<open>message\<close>.\<close>

datatype gen_result = Text string | Failure "int option" string

text \<open>
  What the run does to the outside, in order: calls on a page, the recording context
  being opened and closed, the back-off sleep and the calls of the generation service
  (prompt and image parts, each part a MIME type and the path whose bytes it carries).
\<close>

datatype event =
    PageCall page_id page_call
  | NewContext
  | CloseContext
  | Sleep nat
  | GenerateText string "(string \<times> string) list"

text \<open>
  The behaviour of the collaborators is a parameter. Each answer may depend on the
  history of events or on the files present, so that any deterministic browser,
  transcoder and generation service is an instance. \<open>page_scroll\<close> is the scroll
  position \<open>(window.scrollX, window.scrollY)\<close> of a page after a history.
\<close>

record env =
  hasFFmpeg :: bool
  exec_ok :: "filesys \<Rightarrow> cmd \<Rightarrow> bool"
  probe :: "filesys \<Rightarrow> string \<Rightarrow> real option"
  write_ok :: "filesys \<Rightarrow> string \<Rightarrow> bool"
  page_ok :: "event list \<Rightarrow> page_id \<Rightarrow> page_call \<Rightarrow> bool"
  page_url :: "event list \<Rightarrow> string"
  page_scroll :: "event list \<Rightarrow> page_id \<Rightarrow> int \<times> int"
  video_name :: "event list \<Rightarrow> string"
  apiKey :: "key_type option"
  generateText :: "event list \<Rightarrow> string \<Rightarrow> (string \<times> string) list \<Rightarrow> gen_result"
  clock :: "event list \<Rightarrow> nat"
  isoTime :: "event list \<Rightarrow> string"

section \<open>Configuration, steps, actions, artifacts\<close>

record action =
  a_type :: string
  a_name :: "string option"
  a_selector :: "string option"
  a_text :: "string option"
  a_url :: "string option"
  a_ms :: "nat option"
  a_waitAfter :: "nat option"
  a_x :: "int option"
  a_y :: "int option"
  a_fullPage :: "bool option"

record step =
  s_name :: string
  s_url :: "string option"
  s_record :: bool
  s_actions :: "action list option"
  s_description :: "string option"

record config =
  c_title :: string
  c_url :: "string option"
  c_baseUrl :: string
  c_outputDir :: string
  c_videoFormat :: string
  c_slideshowFps :: "real option"
  c_gifQuality :: "string option"
  c_useAI :: "bool option"
  c_forceAI :: bool
  c_aiModel :: "string option"
  c_maxScreenshotsPerStep :: "nat option"
  c_description :: "string option"
  c_clientRequest :: "string option"
  c_clientflowTaskUrl :: "string option"
  c_steps :: "step list option"

record artifact =
  r_type :: string
  r_name :: string
  r_path :: string
  r_timestamp :: nat
  r_stepIndex :: int
  r_stepName :: "string option"
  r_frameCount :: "nat option"

record world =
  files :: filesys
  events :: "event list"
  artifacts :: "artifact list"

definition artifactsDir :: "config \<Rightarrow> string" where
  "artifactsDir config = path_join (c_outputDir config) ''artifacts''"

text \<open>\<open>u.startsWith('http') ? u : `${config.baseUrl}${u}`\<close>.\<close>

definition resolveUrl :: "config \<Rightarrow> string \<Rightarrow> string" where
  "resolveUrl config u = (if prefix ''http'' u then u else c_baseUrl config @ u)"

section \<open>Page calls\<close>

text \<open>
  A page call that succeeds is appended to the history; a screenshot also writes its
  file. A call that fails throws.
\<close>

definition pageCall :: "env \<Rightarrow> page_id \<Rightarrow> page_call \<Rightarrow> world \<Rightarrow> error + world" where
  "pageCall env pg c w =
     (if page_ok env (events w) pg c
      then Inr (w\<lparr>events := events w @ [PageCall pg c],
                  files := (case c of
                              Screenshot p full \<Rightarrow> AList.update p Media (files w)
                            | _ \<Rightarrow> files w)\<rparr>)
      else Inl (PlaywrightError pg c))"

section \<open>The action switch\<close>

definition ssPath :: "config \<Rightarrow> action \<Rightarrow> string" where
  "ssPath config a = path_join (artifactsDir config) (orElse (a_name a) ''screenshot'' @ ''.png'')"

definition screenshotArtifact ::
  "config \<Rightarrow> env \<Rightarrow> nat \<Rightarrow> step \<Rightarrow> action \<Rightarrow> world \<Rightarrow> artifact" where
  "screenshotArtifact config env stepIndex step a w =
     \<lparr>r_type = ''screenshot'',
      r_name = orElse (a_name a) ''Screenshot'',
      r_path = ssPath config a,
      r_timestamp = clock env (events w),
      r_stepIndex = int stepIndex,
      r_stepName = Some (s_name step),
      r_frameCount = None\<rparr>"

text \<open>
  The \<open>switch (action.type)\<close> that \<open>runReview\<close> contains three times, on the main
  page for the slideshow and for an unrecorded step and on the recording page for a
  video. It has five cases and no \<open>default\<close>.
\<close>

definition runAction ::
  "config \<Rightarrow> env \<Rightarrow> page_id \<Rightarrow> nat \<Rightarrow> step \<Rightarrow> action \<Rightarrow> world \<Rightarrow> error + world" where
  "runAction config env pg stepIndex step a w =
     (if a_type a = ''screenshot'' then
        bindE (pageCall env pg (Screenshot (ssPath config a) (a_fullPage a \<noteq> Some False)) w)
          (\<lambda>w1. Inr (w1\<lparr>artifacts :=
                          artifacts w1 @ [screenshotArtifact config env stepIndex step a w1]\<rparr>))
      else if a_type a = ''click'' then
        bindE (pageCall env pg (Click (a_selector a)) w)
          (\<lambda>w1. pageCall env pg (WaitForTimeout (orElseNat (a_waitAfter a) 500)) w1)
      else if a_type a = ''type'' then
        bindE (pageCall env pg (Fill (a_selector a) (a_text a)) w)
          (\<lambda>w1. pageCall env pg (WaitForTimeout (orElseNat (a_waitAfter a) 300)) w1)
      else if a_type a = ''wait'' then
        pageCall env pg (WaitForTimeout (orElseNat (a_ms a) 1000)) w
      else if a_type a = ''navigate'' then
        (case a_url a of
           None \<Rightarrow> Inl TypeError
         | Some u \<Rightarrow>
             bindE (pageCall env pg (Goto (resolveUrl config u)) w)
               (\<lambda>w1. pageCall env pg (WaitForTimeout 500) w1))
      else Inr w)"

text \<open>\<open>for (const action of step.actions)\<close> around the switch.\<close>

fun runActions ::
  "config \<Rightarrow> env \<Rightarrow> page_id \<Rightarrow> nat \<Rightarrow> step \<Rightarrow> action list \<Rightarrow> world \<Rightarrow> error + world" where
  "runActions config env pg stepIndex step [] w = Inr w"
| "runActions config env pg stepIndex step (a # as) w =
     bindE (runAction config env pg stepIndex step a w)
       (runActions config env pg stepIndex step as)"

section \<open>The transcoder adapter\<close>

text \<open>
  Each function returns its result together with the file system it leaves; none of them
  throws. \<open>checkFFmpeg()\<close> is \<open>hasFFmpeg env\<close>; an \<open>execSync\<close> that returns has written
  its output file, one that throws has written nothing.
\<close>

definition qualitySettings :: "string option \<Rightarrow> string \<times> string" where
  "qualitySettings quality =
     (if quality = Some ''low'' then (''dither=bayer:bayer_scale=5'', ''dither=bayer'')
      else if quality = Some ''high'' then (''stats_mode=single'', ''dither=floyd_steinberg'')
      else (''dither=bayer:bayer_scale=3'', ''dither=bayer''))"

definition convertVideoToGif ::
  "env \<Rightarrow> string \<Rightarrow> string \<Rightarrow> string option \<Rightarrow> filesys \<Rightarrow> bool \<times> filesys" where
  "convertVideoToGif env videoPath gifPath quality fs =
     (if \<not> hasFFmpeg env then (False, fs)
      else
        let settings = qualitySettings quality;
            palettePath = replaceFirst ''.gif'' ''-palette.png'' gifPath
        in if \<not> exec_ok env fs (PaletteGen videoPath (fst settings) palettePath)
           then (False, fs)
           else
             let fs1 = AList.update palettePath Media fs
             in if \<not> exec_ok env fs1 (PaletteUse videoPath palettePath (snd settings) gifPath)
                then (False, fs1)
                else (True, unlink palettePath (AList.update gifPath Media fs1)))"

text \<open>
  The sampling times of \<open>extractVideoFrames\<close> (the list \<open>frameTimes\<close>), for a
  duration in seconds and \<open>maxFrames\<close>: \<open>interval = duration / (maxFrames + 1)\<close>
  and \<open>interval * (i + 1)\<close> for every \<open>i\<close> below \<open>maxFrames\<close>, or the three times of
  a longer video, each operation rounded.
\<close>

definition frameTimes :: "real \<Rightarrow> nat \<Rightarrow> real list" where
  "frameTimes duration maxFrames =
     (if duration \<le> 3
      then map (\<lambda>i. fmul (fdiv duration (fadd (real maxFrames) 1)) (fadd (real i) 1))
             [0..<maxFrames]
      else [0.5, fdiv duration 2, max 0.5 (fsub duration 1)])"

record frame =
  f_path :: string
  f_time :: real
  f_index :: nat

text \<open>
  The extraction loop over the first \<open>min(frameTimes.length, maxFrames)\<close> times;
  \<open>i\<close> is the index of the head of the list. A frame whose extraction fails is left
  out.
\<close>

fun extractLoop ::
  "env \<Rightarrow> string \<Rightarrow> string \<Rightarrow> string \<Rightarrow> nat \<Rightarrow> real list \<Rightarrow> filesys \<Rightarrow> frame list \<times> filesys" where
  "extractLoop env videoPath outDir baseName i [] fs = ([], fs)"
| "extractLoop env videoPath outDir baseName i (t # ts) fs =
     (let framePath = path_join outDir (baseName @ ''-frame-'' @ String_nat (i + 1) @ ''.png'')
      in if exec_ok env fs (FrameAt videoPath t framePath)
         then
           let (frames, fs') =
                 extractLoop env videoPath outDir baseName (i + 1) ts
                   (AList.update framePath Media fs)
           in (\<lparr>f_path = framePath, f_time = t, f_index = i + 1\<rparr> # frames, fs')
         else extractLoop env videoPath outDir baseName (i + 1) ts fs)"

text \<open>
  \<open>probe env fs p\<close> is the duration that \<open>ffprobe\<close> prints for \<open>p\<close>, \<open>None\<close> when it fails
  or prints no number.
\<close>

definition extractVideoFrames ::
  "env \<Rightarrow> string \<Rightarrow> string \<Rightarrow> nat \<Rightarrow> filesys \<Rightarrow> frame list \<times> filesys" where
  "extractVideoFrames env videoPath outDir maxFrames fs =
     (if \<not> hasFFmpeg env then ([], fs)
      else case probe env fs videoPath of
             None \<Rightarrow> ([], fs)
           | Some duration \<Rightarrow>
               if duration \<le> 0 then ([], fs)
               else
                 let b = basename videoPath;
                     baseName = take (length b - length (extname videoPath)) b;
                     times = frameTimes duration maxFrames
                 in extractLoop env videoPath outDir baseName 0
                      (take (min (length times) maxFrames) times) fs)"

definition createSlideshowFromScreenshots ::
  "env \<Rightarrow> string list \<Rightarrow> string \<Rightarrow> real \<Rightarrow> filesys \<Rightarrow> bool \<times> filesys" where
  "createSlideshowFromScreenshots env screenshotPaths outputPath fps fs =
     (if \<not> hasFFmpeg env then (False, fs)
      else if screenshotPaths = [] then (False, fs)
      else
        let concatFilePath = path_join (dirname outputPath) ''slideshow-concat.txt'';
            frameDuration = fdiv 1 fps;
            concatContent =
              ConcatList (map (\<lambda>p. (p, Some frameDuration)) screenshotPaths
                          @ [(last screenshotPaths, None)])
        in if \<not> write_ok env fs concatFilePath then (False, fs)
           else
             let fs1 = AList.update concatFilePath concatContent fs
             in if \<not> exec_ok env fs1 (Concat concatFilePath outputPath) then (False, fs1)
                else (True, unlink concatFilePath (AList.update outputPath Media fs1)))"

section \<open>Recording a step as a slideshow\<close>

text \<open>\<open>step.name.replace(/\s+/g, '-').toLowerCase()\<close>.\<close>

definition stepSlug :: "step \<Rightarrow> string" where
  "stepSlug step = toLowerCase (replaceSpaces (s_name step))"

definition slidePath :: "config \<Rightarrow> step \<Rightarrow> nat \<Rightarrow> string" where
  "slidePath config step slideIndex =
     path_join (artifactsDir config)
       (stepSlug step @ ''-slide-'' @ padStart 3 (String_nat slideIndex) @ ''.png'')"

text \<open>
  The slideshow loop: the switch, then the numbered frame after the action, whatever
  the action was. The state is the world, \<open>slideshowScreenshots\<close> and \<open>slideIndex\<close>.
\<close>

fun slideActions ::
  "config \<Rightarrow> env \<Rightarrow> nat \<Rightarrow> step \<Rightarrow> action list \<Rightarrow> world \<times> string list \<times> nat
     \<Rightarrow> error + world \<times> string list \<times> nat" where
  "slideActions config env stepIndex step [] st = Inr st"
| "slideActions config env stepIndex step (a # as) (w, shots, slideIndex) =
     bindE (runAction config env MainPage stepIndex step a w) (\<lambda>w1.
       let shots1 = (if a_type a = ''screenshot'' then shots @ [ssPath config a] else shots)
       in bindE (pageCall env MainPage (Screenshot (slidePath config step slideIndex) False) w1)
            (\<lambda>w2. slideActions config env stepIndex step as
                     (w2, shots1 @ [slidePath config step slideIndex], slideIndex + 1)))"

text \<open>The clean-up loop: every path with \<open>-slide-\<close> in it is unlinked.\<close>

definition cleanupSlides :: "string list \<Rightarrow> filesys \<Rightarrow> filesys" where
  "cleanupSlides shots fs =
     fold (\<lambda>p fs'. if includes_str p ''-slide-'' then unlink p fs' else fs') shots fs"

definition slideshowArtifact ::
  "config \<Rightarrow> env \<Rightarrow> nat \<Rightarrow> step \<Rightarrow> string list \<Rightarrow> world \<Rightarrow> artifact" where
  "slideshowArtifact config env stepIndex step shots w =
     \<lparr>r_type = ''slideshow'',
      r_name = s_name step,
      r_path = path_join (artifactsDir config) (stepSlug step @ ''-slideshow.webm''),
      r_timestamp = clock env (events w),
      r_stepIndex = int stepIndex,
      r_stepName = Some (s_name step),
      r_frameCount = Some (length shots)\<rparr>"

text \<open>Assembling the slideshow once the actions are done.\<close>

definition finishSlideshow ::
  "config \<Rightarrow> env \<Rightarrow> nat \<Rightarrow> step \<Rightarrow> string list \<Rightarrow> world \<Rightarrow> world" where
  "finishSlideshow config env stepIndex step shots w =
     (if length shots > 0 then
        let slideshowPath = path_join (artifactsDir config) (stepSlug step @ ''-slideshow.webm'');
            fps = (case c_slideshowFps config of
                     None \<Rightarrow> 2
                   | Some f \<Rightarrow> if f = 0 then 2 else f);
            (created, fs1) =
              createSlideshowFromScreenshots env shots slideshowPath fps (files w)
        in if created
           then w\<lparr>files := cleanupSlides shots fs1,
                  artifacts := artifacts w @ [slideshowArtifact config env stepIndex step shots w]\<rparr>
           else w\<lparr>files := fs1\<rparr>
      else w)"

definition stepUrl :: "config \<Rightarrow> env \<Rightarrow> step \<Rightarrow> world \<Rightarrow> string" where
  "stepUrl config env step w =
     (case s_url step of
        None \<Rightarrow> page_url env (events w)
      | Some u \<Rightarrow> if u = [] then page_url env (events w) else resolveUrl config u)"

definition slideshowStep :: "config \<Rightarrow> env \<Rightarrow> nat \<Rightarrow> step \<Rightarrow> world \<Rightarrow> error + world" where
  "slideshowStep config env stepIndex step w =
     bindE (pageCall env MainPage (Goto (stepUrl config env step w)) w) (\<lambda>w1.
     bindE (pageCall env MainPage (WaitForTimeout 300) w1) (\<lambda>w2.
     bindE (pageCall env MainPage (Screenshot (slidePath config step 0) False) w2) (\<lambda>w3.
     bindE (case s_actions step of
              None \<Rightarrow> Inr (w3, [slidePath config step 0], 1)
            | Some as \<Rightarrow>
                slideActions config env stepIndex step as (w3, [slidePath config step 0], 1))
       (\<lambda>(w4, shots, slideIndex). Inr (finishSlideshow config env stepIndex step shots w4)))))"

section \<open>Recording a step as a video\<close>

text \<open>
  Closing the recording context finalises the video: a file with a name of the
  browser's choosing and the extension \<open>.webm\<close> in the artifacts directory.
\<close>

definition closeVideoContext :: "config \<Rightarrow> env \<Rightarrow> world \<Rightarrow> world" where
  "closeVideoContext config env w =
     w\<lparr>events := events w @ [CloseContext],
       files := AList.update (path_join (artifactsDir config) (video_name env (events w) @ ''.webm''))
                  Media (files w)\<rparr>"

text \<open>\<open>videoFiles.filter(f => f.endsWith('.webm')).sort().pop()\<close>.\<close>

definition latestVideo :: "string list \<Rightarrow> string option" where
  "latestVideo videoFiles =
     (case sort (filter (suffix ''.webm'') videoFiles) of
        [] \<Rightarrow> None
      | x # xs \<Rightarrow> Some (last (x # xs)))"

definition mediaArtifact ::
  "string \<Rightarrow> string \<Rightarrow> env \<Rightarrow> nat \<Rightarrow> step \<Rightarrow> world \<Rightarrow> artifact" where
  "mediaArtifact ty p env stepIndex step w =
     \<lparr>r_type = ty,
      r_name = s_name step,
      r_path = p,
      r_timestamp = clock env (events w),
      r_stepIndex = int stepIndex,
      r_stepName = Some (s_name step),
      r_frameCount = None\<rparr>"

text \<open>What follows \<open>videoContext.close()\<close>: finding the video and converting it.\<close>

definition finishVideo :: "config \<Rightarrow> env \<Rightarrow> nat \<Rightarrow> step \<Rightarrow> world \<Rightarrow> world" where
  "finishVideo config env stepIndex step w =
     (case latestVideo (readdir (artifactsDir config) (files w)) of
        None \<Rightarrow> w
      | Some v \<Rightarrow>
          let videoPath = path_join (artifactsDir config) v
          in if c_videoFormat config = ''gif'' then
               let gifPath = path_join (artifactsDir config) (stepSlug step @ ''.gif'');
                   (converted, fs1) =
                     convertVideoToGif env videoPath gifPath (c_gifQuality config) (files w)
               in if converted
                  then w\<lparr>files := unlink videoPath fs1,
                         artifacts := artifacts w @ [mediaArtifact ''gif'' gifPath env stepIndex step w]\<rparr>
                  else w\<lparr>files := fs1,
                         artifacts := artifacts w
                                      @ [mediaArtifact ''video'' videoPath env stepIndex step w]\<rparr>
             else w\<lparr>artifacts := artifacts w
                                  @ [mediaArtifact ''video'' videoPath env stepIndex step w]\<rparr>)"

definition videoStep :: "config \<Rightarrow> env \<Rightarrow> nat \<Rightarrow> step \<Rightarrow> world \<Rightarrow> error + world" where
  "videoStep config env stepIndex step w =
     (let w0 = w\<lparr>events := events w @ [NewContext]\<rparr>
      in bindE (pageCall env VideoPage (Goto (stepUrl config env step w0)) w0) (\<lambda>w1.
         bindE (pageCall env VideoPage (WaitForTimeout 500) w1) (\<lambda>w2.
         bindE (case s_actions step of
                  None \<Rightarrow> Inr w2
                | Some as \<Rightarrow> runActions config env VideoPage stepIndex step as w2)
           (\<lambda>w3. Inr (finishVideo config env stepIndex step (closeVideoContext config env w3))))))"

section \<open>The step loop\<close>

definition runStep :: "config \<Rightarrow> env \<Rightarrow> nat \<Rightarrow> step \<Rightarrow> world \<Rightarrow> error + world" where
  "runStep config env stepIndex step w =
     bindE (if nonEmpty (s_url step)
            then bindE (pageCall env MainPage (Goto (resolveUrl config (the (s_url step)))) w)
                   (pageCall env MainPage (WaitForTimeout 500))
            else Inr w)
       (\<lambda>w1. if s_record step then
                if c_videoFormat config = ''slideshow''
                then slideshowStep config env stepIndex step w1
                else videoStep config env stepIndex step w1
              else (case s_actions step of
                      None \<Rightarrow> Inr w1
                    | Some as \<Rightarrow> runActions config env MainPage stepIndex step as w1))"

fun runSteps :: "config \<Rightarrow> env \<Rightarrow> nat \<Rightarrow> step list \<Rightarrow> world \<Rightarrow> error + world" where
  "runSteps config env stepIndex [] w = Inr w"
| "runSteps config env stepIndex (step # rest) w =
     bindE (runStep config env stepIndex step w) (runSteps config env (stepIndex + 1) rest)"

text \<open>The single-URL review that precedes the steps.\<close>

definition singleUrl :: "config \<Rightarrow> env \<Rightarrow> world \<Rightarrow> error + world" where
  "singleUrl config env w =
     (if \<not> nonEmpty (c_url config) then Inr w
      else
        let u = the (c_url config);
            screenshotPath = path_join (artifactsDir config) ''review-screenshot.png''
        in (case pageCall env MainPage (Goto u) w of
              Inl e \<Rightarrow> Inl (Wrapped (''Failed to load URL '' @ u @ '': '') e)
            | Inr w1 \<Rightarrow>
                bindE (pageCall env MainPage (WaitForTimeout 1000) w1) (\<lambda>w2.
                  (case pageCall env MainPage (Screenshot screenshotPath True) w2 of
                     Inl e \<Rightarrow> Inl (Wrapped ''Failed to capture screenshot: '' e)
                   | Inr w3 \<Rightarrow>
                       Inr (w3\<lparr>artifacts := artifacts w3 @
                                [\<lparr>r_type = ''screenshot'',
                                  r_name = ''Page Screenshot'',
                                  r_path = screenshotPath,
                                  r_timestamp = clock env (events w3),
                                  r_stepIndex = - 1,
                                  r_stepName = None,
                                  r_frameCount = None\<rparr>]\<rparr>)))))"

text \<open>The capture phase of \<open>runReview\<close>: the single URL, then every step in order.\<close>

definition capture :: "config \<Rightarrow> env \<Rightarrow> world \<Rightarrow> error + world" where
  "capture config env w =
     bindE (singleUrl config env w) (\<lambda>w1.
       case c_steps config of
         None \<Rightarrow> Inr w1
       | Some ss \<Rightarrow> runSteps config env 0 ss w1)"

section \<open>The description generator\<close>

definition mimeType :: "string \<Rightarrow> string" where
  "mimeType imgPath =
     (let ext = toLowerCase (extname imgPath)
      in if ext = ''.png'' then ''image/png''
         else if ext = ''.jpg'' \<or> ext = ''.jpeg'' then ''image/jpeg''
         else ''image/png'')"

text \<open>
  The image parts: one for every path that \<open>fs.readFile\<close> can read, in order. A part
  is the MIME type and the path whose bytes it carries.
\<close>

definition imageParts :: "filesys \<Rightarrow> string list \<Rightarrow> (string \<times> string) list" where
  "imageParts fs imagesToAnalyze =
     map (\<lambda>p. (mimeType p, p)) (filter (fileExists fs) imagesToAnalyze)"

definition buildPrompt :: "string \<Rightarrow> string \<Rightarrow> string" where
  "buildPrompt clientRequest stepContext =
     ''You are analyzing browser screenshots/video frames from a development review. ''
     @ [CHR 0x0A, CHR 0x0A]
     @ (if clientRequest = [] then [] else ''Client Request: '' @ clientRequest @ [CHR 0x0A, CHR 0x0A])
     @ (if stepContext = [] then [] else ''Step Context: '' @ stepContext @ [CHR 0x0A, CHR 0x0A])
     @ ''Please analyze these images and provide a clear, friendly description that:''
     @ [CHR 0x0A] @ ''1. Describes what is shown in the screenshots/frames''
     @ [CHR 0x0A] @ ''2. Explains how it relates to the client's request (if provided)''
     @ [CHR 0x0A] @ ''3. Highlights what was accomplished or demonstrated''
     @ [CHR 0x0A, CHR 0x0A]
     @ ''Keep the description concise (2-3 sentences) and professional.''"

text \<open>One call of the generation service, recorded in the history.\<close>

definition callService ::
  "env \<Rightarrow> string \<Rightarrow> (string \<times> string) list \<Rightarrow> world \<Rightarrow> gen_result \<times> world" where
  "callService env prompt parts w =
     (generateText env (events w) prompt parts,
      w\<lparr>events := events w @ [GenerateText prompt parts]\<rparr>)"

text \<open>\<open>error.status === 429 || error.message.includes('rate limit')\<close>.\<close>

definition isRateLimit :: "int option \<Rightarrow> string \<Rightarrow> bool" where
  "isRateLimit status message = (status = Some 429 \<or> includes_str message ''rate limit'')"

text \<open>
  The \<open>try\<close>/\<open>catch\<close> that ends \<open>generateAIDescription\<close>: the call, and on a
  rate-limit error the sleep and the second call. The world is returned on failure too,
  since the caller goes on.
\<close>

definition generateWithRetry ::
  "env \<Rightarrow> string \<Rightarrow> (string \<times> string) list \<Rightarrow> world \<Rightarrow> (error + string) \<times> world" where
  "generateWithRetry env prompt parts w =
     (case callService env prompt parts w of
        (Text t, w1) \<Rightarrow> (Inr t, w1)
      | (Failure status message, w1) \<Rightarrow>
          if isRateLimit status message then
            (case callService env prompt parts (w1\<lparr>events := events w1 @ [Sleep 2000]\<rparr>) of
               (Text t, w2) \<Rightarrow> (Inr t, w2)
             | (Failure status' message', w2) \<Rightarrow>
                 (Inl (Error (''AI generation failed after retry: '' @ message')), w2))
          else (Inl (Error (''AI generation failed: '' @ message)), w1))"

text \<open>
  \<open>getOpenAIModel\<close> returns \<open>null\<close> only when there is no API key, which has been
  excluded before it is called, so its failure branch does not appear.
\<close>

definition generateAIDescription ::
  "env \<Rightarrow> config \<Rightarrow> string list \<Rightarrow> string \<Rightarrow> string \<Rightarrow> world \<Rightarrow> (error + string) \<times> world" where
  "generateAIDescription env config images clientRequestText stepContext w =
     (if apiKey env = None
      then (Inl (Error (''No API key found. Set AI_GATEWAY_API_KEY or OPENAI_API_KEY ''
                        @ ''environment variable.'')), w)
      else
        let imagesToAnalyze = take (orElseNat (c_maxScreenshotsPerStep config) 10) images;
            parts = imageParts (files w) imagesToAnalyze
        in if parts = [] then (Inl (Error ''No valid images to analyze''), w)
           else generateWithRetry env (buildPrompt clientRequestText stepContext) parts w)"

section \<open>The description cache\<close>

definition configPath :: "string \<Rightarrow> string" where
  "configPath dir = path_join dir ''config.json''"

text \<open>The result is \<open>null\<close> when the file is missing or is not JSON.\<close>

definition loadCachedDescriptions :: "string \<Rightarrow> filesys \<Rightarrow> json" where
  "loadCachedDescriptions dir fs =
     (case map_of fs (configPath dir) of
        Some (JsonText j) \<Rightarrow> j
      | _ \<Rightarrow> JNull)"

definition apiKeyType :: "env \<Rightarrow> string" where
  "apiKeyType env =
     (case apiKey env of
        Some direct \<Rightarrow> ''direct''
      | Some gateway \<Rightarrow> ''gateway''
      | None \<Rightarrow> ''unknown'')"

text \<open>
  The object literal \<open>{...descriptions, generatedAt, model, apiKeyType}\<close>: a key of
  \<open>descriptions\<close> keeps its place and takes the new value, a new key goes to the end.
\<close>

definition cacheData :: "env \<Rightarrow> jobj \<Rightarrow> world \<Rightarrow> jobj" where
  "cacheData env descriptions w =
     AList.update ''apiKeyType'' (JStr (apiKeyType env))
       (AList.update ''model''
          (if truthy (map_of descriptions ''model'')
           then the (map_of descriptions ''model'') else JStr ''gpt-4o'')
          (AList.update ''generatedAt'' (JStr (isoTime env (events w))) descriptions))"

text \<open>A write that fails is logged and otherwise ignored.\<close>

definition saveCachedDescriptions :: "env \<Rightarrow> string \<Rightarrow> jobj \<Rightarrow> world \<Rightarrow> world" where
  "saveCachedDescriptions env dir descriptions w =
     (if write_ok env (files w) (configPath dir)
      then w\<lparr>files := AList.update (configPath dir)
                         (JsonText (JObj (cacheData env descriptions w))) (files w)\<rparr>
      else w)"

section \<open>Describing a run\<close>

text \<open>A frame extracted for the analysis, tagged with the artifact it comes from.\<close>

record xframe =
  x_path :: string
  x_time :: real
  x_index :: nat
  x_stepIndex :: int
  x_stepName :: "string option"
  x_sourceArtifact :: string


record step_description =
  d_stepIndex :: nat
  d_stepName :: string
  d_text :: "string option"

record descriptions =
  ds_description :: "string option"
  ds_clientRequest :: "string option"
  ds_clientflowTaskUrl :: "string option"
  ds_steps :: "step_description list"
  ds_model :: string

text \<open>
  \<open>artifactsByStep.get(stepIndex)\<close>, as type and path: the artifacts of the step in
  order, then its extracted frames. The images of the step are the screenshots and
  frames among them, capped.
\<close>

definition stepArtifacts :: "artifact list \<Rightarrow> xframe list \<Rightarrow> nat \<Rightarrow> (string \<times> string) list" where
  "stepArtifacts arts frames stepIndex =
     map (\<lambda>a. (r_type a, r_path a)) (filter (\<lambda>a. r_stepIndex a = int stepIndex) arts)
     @ map (\<lambda>f. (''frame'', x_path f)) (filter (\<lambda>f. x_stepIndex f = int stepIndex) frames)"

definition stepImages :: "config \<Rightarrow> artifact list \<Rightarrow> xframe list \<Rightarrow> nat \<Rightarrow> string list" where
  "stepImages config arts frames stepIndex =
     take (orElseNat (c_maxScreenshotsPerStep config) 10)
       (map snd (filter (\<lambda>a. fst a = ''screenshot'' \<or> fst a = ''frame'')
                        (stepArtifacts arts frames stepIndex)))"

text \<open>
  The body of the loop over the steps: the manual description when there is one and
  regeneration is not forced; otherwise a generated one, with the \<open>catch\<close> that
  records the manual description or \<open>null\<close> when generation throws.
\<close>

definition describeStep ::
  "config \<Rightarrow> env \<Rightarrow> artifact list \<Rightarrow> xframe list \<Rightarrow> nat \<Rightarrow> step \<Rightarrow> world
     \<Rightarrow> step_description \<times> world" where
  "describeStep config env arts frames stepIndex step w =
     (if nonEmpty (s_description step) \<and> \<not> c_forceAI config
      then (\<lparr>d_stepIndex = stepIndex, d_stepName = s_name step,
              d_text = s_description step\<rparr>, w)
      else
        let images = stepImages config arts frames stepIndex
        in if images \<noteq> [] then
             (case generateAIDescription env config images (orElse (c_clientRequest config) [])
                     (''Step: '' @ s_name step) w of
                (Inr stepDescription, w1) \<Rightarrow>
                  (\<lparr>d_stepIndex = stepIndex, d_stepName = s_name step,
                    d_text = Some stepDescription\<rparr>, w1)
              | (Inl e, w1) \<Rightarrow>
                  (\<lparr>d_stepIndex = stepIndex, d_stepName = s_name step,
                    d_text = orNull (s_description step)\<rparr>, w1))
           else (\<lparr>d_stepIndex = stepIndex, d_stepName = s_name step,
                   d_text = orNull (s_description step)\<rparr>, w))"

fun describeSteps ::
  "config \<Rightarrow> env \<Rightarrow> artifact list \<Rightarrow> xframe list \<Rightarrow> nat \<Rightarrow> step list \<Rightarrow> world
     \<Rightarrow> step_description list \<times> world" where
  "describeSteps config env arts frames stepIndex [] w = ([], w)"
| "describeSteps config env arts frames stepIndex (step # rest) w =
     (let (d, w1) = describeStep config env arts frames stepIndex step w;
          (ds, w2) = describeSteps config env arts frames (stepIndex + 1) rest w1
      in (d # ds, w2))"

text \<open>
  The overall description: generated from up to five screenshots unless one is
  given; a failure leaves it \<open>null\<close>.
\<close>

definition describeOverall ::
  "config \<Rightarrow> env \<Rightarrow> artifact list \<Rightarrow> world \<Rightarrow> string option \<times> world" where
  "describeOverall config env arts w =
     (if nonEmpty (c_description config) then (c_description config, w)
      else
        let allImages = take 5 (map r_path (filter (\<lambda>a. r_type a = ''screenshot'') arts))
        in if allImages \<noteq> [] then
             (case generateAIDescription env config allImages (orElse (c_clientRequest config) [])
                     (''Overall review: '' @ c_title config) w of
                (Inr t, w1) \<Rightarrow> (Some t, w1)
              | (Inl e, w1) \<Rightarrow> (None, w1))
           else (None, w))"

text \<open>
  What \<open>generateAIDescription\<close> sends to the service for a step and for the overall
  description, given the files on disk: the prompt, and one part for each of the images
  that can be read.
\<close>

definition stepPrompt :: "config \<Rightarrow> step \<Rightarrow> string" where
  "stepPrompt config step =
     buildPrompt (orElse (c_clientRequest config) []) (''Step: '' @ s_name step)"

definition stepParts ::
  "config \<Rightarrow> artifact list \<Rightarrow> xframe list \<Rightarrow> filesys \<Rightarrow> nat \<Rightarrow> (string \<times> string) list" where
  "stepParts config arts frames fs stepIndex =
     imageParts fs (take (orElseNat (c_maxScreenshotsPerStep config) 10)
                      (stepImages config arts frames stepIndex))"

definition overallPrompt :: "config \<Rightarrow> string" where
  "overallPrompt config =
     buildPrompt (orElse (c_clientRequest config) []) (''Overall review: '' @ c_title config)"

definition overallParts :: "config \<Rightarrow> artifact list \<Rightarrow> filesys \<Rightarrow> (string \<times> string) list" where
  "overallParts config arts fs =
     imageParts fs (take (orElseNat (c_maxScreenshotsPerStep config) 10)
                      (take 5 (map r_path (filter (\<lambda>a. r_type a = ''screenshot'') arts))))"

definition jsonOfOption :: "string option \<Rightarrow> json" where
  "jsonOfOption v = (case v of None \<Rightarrow> JNull | Some s \<Rightarrow> JStr s)"

definition jsonOfDescriptions :: "descriptions \<Rightarrow> jobj" where
  "jsonOfDescriptions d =
     [(''description'', jsonOfOption (ds_description d)),
      (''clientRequest'', jsonOfOption (ds_clientRequest d)),
      (''clientflowTaskUrl'', jsonOfOption (ds_clientflowTaskUrl d)),
      (''steps'', JArr (map (\<lambda>e. JObj [(''stepIndex'', JNum (real (d_stepIndex e))),
                                          (''stepName'', JStr (d_stepName e)),
                                          (''description'', jsonOfOption (d_text e))])
                            (ds_steps d))),
      (''model'', JStr (ds_model d))]"

text \<open>Generating every description and saving the bundle.\<close>

definition generateDescriptions ::
  "config \<Rightarrow> env \<Rightarrow> xframe list \<Rightarrow> world \<Rightarrow> descriptions \<times> world" where
  "generateDescriptions config env frames w =
     (let arts = artifacts w;
          (entries, w1) = (case c_steps config of
                             None \<Rightarrow> ([], w)
                           | Some ss \<Rightarrow> describeSteps config env arts frames 0 ss w);
          (overall, w2) = describeOverall config env arts w1;
          d = \<lparr>ds_description = overall,
               ds_clientRequest = orNull (c_clientRequest config),
               ds_clientflowTaskUrl = orNull (c_clientflowTaskUrl config),
               ds_steps = entries,
               ds_model = orElse (c_aiModel config) ''gpt-4o''\<rparr>
      in (d, saveCachedDescriptions env (c_outputDir config) (jsonOfDescriptions d) w2))"



section \<open>Example inputs\<close>

text \<open>
  An environment in which the browser and the transcoder work, every video lasts 2.4
  seconds, the page stays at the top and no API key is set, and a world with no files.
\<close>

definition okEnv :: env where
  "okEnv =
     \<lparr>hasFFmpeg = True,
      exec_ok = (\<lambda>fs c. True),
      probe = (\<lambda>fs p. Some (fl 2.4)),
      write_ok = (\<lambda>fs p. True),
      page_ok = (\<lambda>evs pg c. True),
      page_url = (\<lambda>evs. ''http://localhost:7777/''),
      page_scroll = (\<lambda>evs pg. (0, 0)),
      video_name = (\<lambda>evs. ''recording''),
      apiKey = None,
      generateText = (\<lambda>evs prompt parts. Text ''A page.''),
      clock = (\<lambda>evs. length evs),
      isoTime = (\<lambda>evs. ''2026-01-01T00:00:00.000Z'')\<rparr>"

text \<open>The same with videos of ten seconds.\<close>

definition tenSeconds :: env where
  "tenSeconds = okEnv\<lparr>probe := (\<lambda>fs p. Some 10)\<rparr>"

definition emptyWorld :: world where
  "emptyWorld = \<lparr>files = [], events = [], artifacts = []\<rparr>"

text \<open>The configuration of \<open>browser-review --title T --url https://ex.test/\<close>.\<close>

definition cliDefault :: jobj where
  "cliDefault =
     AList.update ''url'' (JStr ''https://ex.test/'')
       (AList.update ''title'' (JStr ''T'')
         (DEFAULT_CONFIG ''http://localhost:7777'' ''/home/u/review-reports''))"

text \<open>A description bundle as \<open>runReview\<close> builds it.\<close>

definition bundle0 :: jobj where
  "bundle0 =
     [(''description'', JStr ''Done.''),
      (''clientRequest'', JNull),
      (''clientflowTaskUrl'', JNull),
      (''steps'', JArr []),
      (''model'', JStr ''gpt-4o'')]"

text \<open>The field \<open>k\<close> of a parsed document, \<open>None\<close> when there is none.\<close>

definition jfield :: "json \<Rightarrow> string \<Rightarrow> json option" where
  "jfield j k = (case j of JObj kvs \<Rightarrow> map_of kvs k | _ \<Rightarrow> None)"

text \<open>The number of calls of the generation service in a history.\<close>

definition isServiceCall :: "event \<Rightarrow> bool" where
  "isServiceCall e = (case e of GenerateText p parts \<Rightarrow> True | _ \<Rightarrow> False)"

definition serviceCalls :: "event list \<Rightarrow> nat" where
  "serviceCalls evs = length (filter isServiceCall evs)"





text \<open>Actions, the step of the end-to-end scenario and a configuration around it.\<close>

definition action0 :: action where
  "action0 =
     \<lparr>a_type = [], a_name = None, a_selector = None, a_text = None, a_url = None,
      a_ms = None, a_waitAfter = None, a_x = None, a_y = None, a_fullPage = None\<rparr>"

definition hoverAction :: action where
  "hoverAction = action0\<lparr>a_type := ''hover'', a_selector := Some ''#menu''\<rparr>"

definition scrollAction :: action where
  "scrollAction = action0\<lparr>a_type := ''scroll'', a_x := Some 0, a_y := Some 500\<rparr>"

definition stepS :: step where
  "stepS =
     \<lparr>s_name = ''S'', s_url = None, s_record = True,
      s_actions = Some [action0\<lparr>a_type := ''screenshot'', a_name := Some ''before''\<rparr>,
                        action0\<lparr>a_type := ''click'', a_selector := Some ''#go''\<rparr>,
                        action0\<lparr>a_type := ''screenshot'', a_name := Some ''after''\<rparr>],
      s_description = None\<rparr>"

definition cfgS :: config where
  "cfgS =
     \<lparr>c_title = ''T'', c_url = None, c_baseUrl = ''http://localhost:7777'',
      c_outputDir = ''/home/u/review-reports'', c_videoFormat = ''slideshow'',
      c_slideshowFps = Some 2, c_gifQuality = Some ''medium'', c_useAI = Some True,
      c_forceAI = False, c_aiModel = Some ''gpt-4o'', c_maxScreenshotsPerStep = Some 10,
      c_description = None, c_clientRequest = None, c_clientflowTaskUrl = None,
      c_steps = Some [stepS]\<rparr>"






text \<open>
  Two recorded steps in GIF mode on a machine without a transcoder, with a browser that
  names the first recording \<open>zz\<close> and the second \<open>aa\<close>.
\<close>

definition stepOne :: step where
  "stepOne = \<lparr>s_name = ''One'', s_url = None, s_record = True, s_actions = None,
              s_description = None\<rparr>"

definition stepTwo :: step where
  "stepTwo = \<lparr>s_name = ''Two'', s_url = None, s_record = True, s_actions = None,
              s_description = None\<rparr>"

definition cfgGif :: config where
  "cfgGif = cfgS\<lparr>c_videoFormat := ''gif'', c_steps := Some [stepOne, stepTwo]\<rparr>"

definition envRec :: env where
  "envRec =
     okEnv\<lparr>hasFFmpeg := False,
           video_name := (\<lambda>evs. if CloseContext \<in> set evs then ''aa'' else ''zz'')\<rparr>"

text \<open>
  A generation service that fails, for a reason other than a rate limit, whenever it is
  asked about the first of two images, an environment with an API key around it, and a
  run of two steps with one screenshot each; the first step has a manual description
  and the run is told to regenerate.
\<close>

definition pickyService :: "event list \<Rightarrow> string \<Rightarrow> (string \<times> string) list \<Rightarrow> gen_result" where
  "pickyService evs prompt parts =
     (if parts = [(''image/png'', ''/home/u/review-reports/artifacts/a.png'')]
      then Failure (Some 500) ''Internal error'' else Text ''A page.'')"

definition envAI :: env where
  "envAI = okEnv\<lparr>apiKey := Some direct, generateText := pickyService\<rparr>"

definition stepsTwo :: "step list" where
  "stepsTwo =
     [\<lparr>s_name = ''First'', s_url = None, s_record = False, s_actions = None,
       s_description = Some ''The start page.''\<rparr>,
      \<lparr>s_name = ''Second'', s_url = None, s_record = False, s_actions = None,
       s_description = None\<rparr>]"

definition cfgTwo :: config where
  "cfgTwo = cfgS\<lparr>c_forceAI := True, c_steps := Some stepsTwo\<rparr>"

definition worldTwo :: world where
  "worldTwo =
     \<lparr>files = [(''/home/u/review-reports/artifacts/a.png'', Media),
               (''/home/u/review-reports/artifacts/b.png'', Media)],
      events = [],
      artifacts =
        [\<lparr>r_type = ''screenshot'', r_name = ''a'',
          r_path = ''/home/u/review-reports/artifacts/a.png'',
          r_timestamp = 0, r_stepIndex = 0, r_stepName = Some ''First'', r_frameCount = None\<rparr>,
         \<lparr>r_type = ''screenshot'', r_name = ''b'',
          r_path = ''/home/u/review-reports/artifacts/b.png'',
          r_timestamp = 0, r_stepIndex = 1, r_stepName = Some ''Second'', r_frameCount = None\<rparr>]\<rparr>"

chapter \<open>Properties\<close>

lemma bindE_simps [simp]:
  "bindE (Inr x) f = f x"
  "bindE (Inl e) f = Inl e"
  by (simp_all add: bindE_def)

lemma fileExists_update [simp]:
  "fileExists (AList.update p c fs) q = (q = p \<or> fileExists fs q)"
  by (auto simp: fileExists_def update_conv')

lemma fileExists_unlink [simp]:
  "fileExists (unlink p fs) q = (q \<noteq> p \<and> fileExists fs q)"
  by (auto simp: fileExists_def unlink_def delete_conv')


section \<open>Validation\<close>

text \<open>
  Claim C2. A configuration whose \<open>videoFormat\<close> is \<open>slideshow\<close>, the default, is
  rejected by \<open>validateConfig\<close>: the function throws, and when the checks before the
  one on \<open>videoFormat\<close> pass, what it throws is the error that only \<open>gif\<close> and \<open>webm\<close>
  are accepted.
\<close>

theorem validateConfig_rejects_slideshow:
  assumes "map_of config ''videoFormat'' = Some (JStr ''slideshow'')"
  shows "(\<exists>e. validateConfig validUrl config = Inl e)
       \<and> (validateHead config = Inr () \<longrightarrow> validateConfig validUrl config = Inl videoFormatError)"
proof -
  have bad: "truthy (map_of config ''videoFormat'')
       \<and> map_of config ''videoFormat'' \<notin> Some ` JStr ` {''gif'', ''webm''}"
    using assms by auto
  show ?thesis
  proof (cases "validateHead config")
    case (Inl e)
    then show ?thesis by (simp add: validateConfig_def bindE_def)
  next
    case (Inr u)
    then show ?thesis using bad by (simp add: validateConfig_def bindE_def)
  qed
qed

text \<open>
  The default configuration with a title and a URL, which is what the command line
  without \<open>--format\<close> produces, passes every earlier check and is rejected.
\<close>

theorem validateConfig_rejects_slideshow_witness:
  "map_of cliDefault ''videoFormat'' = Some (JStr ''slideshow'')
   \<and> validateHead cliDefault = Inr ()
   \<and> validateConfig (\<lambda>v. True) cliDefault = Inl videoFormatError"
proof -
  have vf: "map_of cliDefault ''videoFormat'' = Some (JStr ''slideshow'')"
    by (simp add: cliDefault_def DEFAULT_CONFIG_def)
  have hd: "validateHead cliDefault = Inr ()"
    by (simp add: cliDefault_def DEFAULT_CONFIG_def validateHead_def titleOk_def trim_def
          isSpace_def)
  from validateConfig_rejects_slideshow [OF vf, of "\<lambda>v. True"] vf hd show ?thesis by simp
qed

section \<open>The cache round trip\<close>

lemma map_of_cacheData:
  "map_of (cacheData env D w) =
     (map_of D)(''generatedAt'' \<mapsto> JStr (isoTime env (events w)),
                ''model'' \<mapsto> (if truthy (map_of D ''model'')
                                then the (map_of D ''model'') else JStr ''gpt-4o''),
                ''apiKeyType'' \<mapsto> JStr (apiKeyType env))"
  by (simp add: cacheData_def update_conv')

text \<open>
  Claim C6, as the code has it. When the write succeeds, saving a bundle \<open>D\<close> and
  loading it again returns an object that agrees with \<open>D\<close> on every field other than
  \<open>generatedAt\<close>, \<open>model\<close> and \<open>apiKeyType\<close>; \<open>generatedAt\<close> is the time of saving,
  \<open>apiKeyType\<close> is added, and \<open>model\<close> is that of \<open>D\<close> when it has one and \<open>gpt-4o\<close>
  otherwise.
\<close>

theorem cache_round_trip:
  assumes "write_ok env (files w) (configPath dir)"
  shows "loadCachedDescriptions dir (files (saveCachedDescriptions env dir D w))
           = JObj (cacheData env D w)
       \<and> (\<forall>k. k \<notin> {''generatedAt'', ''model'', ''apiKeyType''}
              \<longrightarrow> map_of (cacheData env D w) k = map_of D k)
       \<and> map_of (cacheData env D w) ''generatedAt'' = Some (JStr (isoTime env (events w)))
       \<and> map_of (cacheData env D w) ''apiKeyType'' = Some (JStr (apiKeyType env))
       \<and> map_of (cacheData env D w) ''model''
           = Some (if truthy (map_of D ''model'') then the (map_of D ''model'')
                   else JStr ''gpt-4o'')"
  using assms
  by (simp add: loadCachedDescriptions_def saveCachedDescriptions_def map_of_cacheData
        update_conv')

theorem cache_round_trip_witness:
  "loadCachedDescriptions ''out'' (files (saveCachedDescriptions okEnv ''out'' bundle0 emptyWorld))
     = JObj (bundle0 @ [(''generatedAt'', JStr ''2026-01-01T00:00:00.000Z''),
                        (''apiKeyType'', JStr ''unknown'')])"
proof -
  have h: "write_ok okEnv (files emptyWorld) (configPath ''out'')" by (simp add: okEnv_def)
  have "cacheData okEnv bundle0 emptyWorld
        = bundle0 @ [(''generatedAt'', JStr ''2026-01-01T00:00:00.000Z''),
                     (''apiKeyType'', JStr ''unknown'')]"
    by (simp add: cacheData_def bundle0_def okEnv_def apiKeyType_def emptyWorld_def)
  with cache_round_trip [OF h, of bundle0] show ?thesis by simp
qed

text \<open>
  The claim as the specification words it fails: the loaded object has a field
  \<open>apiKeyType\<close> that the saved bundle does not have, and it is not \<open>generatedAt\<close>.
\<close>

theorem cache_round_trip_counterexample:
  "jfield (loadCachedDescriptions ''out''
             (files (saveCachedDescriptions okEnv ''out'' bundle0 emptyWorld))) ''apiKeyType''
     = Some (JStr ''unknown'')
   \<and> map_of bundle0 ''apiKeyType'' = None"
proof -
  have p: "configPath ''out'' = ''out/config.json''" by code_simp
  show ?thesis
    by (simp add: jfield_def loadCachedDescriptions_def saveCachedDescriptions_def cacheData_def
          bundle0_def okEnv_def apiKeyType_def emptyWorld_def p)
qed

section \<open>Retrying the generation service\<close>

lemma serviceCalls_simps [simp]:
  "serviceCalls (evs @ evs') = serviceCalls evs + serviceCalls evs'"
  "serviceCalls [] = 0"
  "serviceCalls (GenerateText p parts # evs) = Suc (serviceCalls evs)"
  "serviceCalls (Sleep n # evs) = serviceCalls evs"
  "serviceCalls (PageCall pg c # evs) = serviceCalls evs"
  "serviceCalls (NewContext # evs) = serviceCalls evs"
  "serviceCalls (CloseContext # evs) = serviceCalls evs"
  by (simp_all add: serviceCalls_def isServiceCall_def)




section \<open>Action types without a case\<close>

text \<open>
  Claim C1, as the code has it. An action whose type tag is none of \<open>screenshot\<close>,
  \<open>click\<close>, \<open>type\<close>, \<open>wait\<close>, \<open>navigate\<close>, \<open>scroll\<close> raises no error: the switch
  has no case for it, the world is left as it was and the loop goes on with the next
  action; the slideshow loop still captures its numbered frame.
\<close>

theorem unknown_action_skipped:
  assumes "a_type a \<notin> {''screenshot'', ''click'', ''type'', ''wait'', ''navigate'', ''scroll''}"
  shows "runAction config env pg stepIndex step a w = Inr w
       \<and> runActions config env pg stepIndex step (a # as) w
           = runActions config env pg stepIndex step as w
       \<and> slideActions config env stepIndex step (a # as) (w, shots, k)
           = bindE (pageCall env MainPage (Screenshot (slidePath config step k) False) w)
               (\<lambda>w2. slideActions config env stepIndex step as
                        (w2, shots @ [slidePath config step k], k + 1))"
  using assms by (simp add: runAction_def)

theorem unknown_action_skipped_witness:
  "runActions cfgS okEnv MainPage 0 stepS [hoverAction] emptyWorld = Inr emptyWorld"
proof -
  have "a_type hoverAction \<notin> {''screenshot'', ''click'', ''type'', ''wait'', ''navigate'', ''scroll''}"
    by (simp add: hoverAction_def action0_def)
  from unknown_action_skipped [OF this, of cfgS okEnv MainPage 0 stepS emptyWorld "[]"]
  show ?thesis by simp
qed

text \<open>
  The claim as the specification words it fails: an action tagged \<open>hover\<close> returns
  normally.
\<close>

theorem unknown_action_counterexample:
  "runAction cfgS okEnv MainPage 0 stepS hoverAction emptyWorld = Inr emptyWorld"
  by (simp add: runAction_def hoverAction_def action0_def)

text \<open>
  Claim C4, as the code has it. A \<open>scroll\<close> action, whatever its coordinates, is not
  handled: the switch has no case for it, so executing it raises no error, issues no
  page call and leaves the scroll position of the page where it was; the loop goes on
  with the next action and the slideshow loop still captures its numbered frame.
\<close>

theorem scroll_action_skipped:
  assumes "a_type a = ''scroll''"
  shows "runAction config env pg stepIndex step a w = Inr w
       \<and> page_scroll env (events (projr (runAction config env pg stepIndex step a w))) pg
           = page_scroll env (events w) pg
       \<and> runActions config env pg stepIndex step (a # as) w
           = runActions config env pg stepIndex step as w
       \<and> slideActions config env stepIndex step (a # as) (w, shots, k)
           = bindE (pageCall env MainPage (Screenshot (slidePath config step k) False) w)
               (\<lambda>w2. slideActions config env stepIndex step as
                        (w2, shots @ [slidePath config step k], k + 1))"
  using assms by (simp add: runAction_def)

theorem scroll_action_skipped_witness:
  "a_type scrollAction = ''scroll''
   \<and> runActions cfgS okEnv MainPage 0 stepS [scrollAction] emptyWorld = Inr emptyWorld"
proof -
  have t: "a_type scrollAction = ''scroll''" by (simp add: scrollAction_def)
  from scroll_action_skipped [OF t, of cfgS okEnv MainPage 0 stepS emptyWorld "[]"] t
  show ?thesis by simp
qed

text \<open>
  The claim as the specification words it fails: a \<open>scroll\<close> action to \<open>(0, 500)\<close> on
  a page at the top returns with the page at the top.
\<close>

theorem scroll_action_counterexample:
  "a_x scrollAction = Some 0 \<and> a_y scrollAction = Some 500
   \<and> runAction cfgS okEnv MainPage 0 stepS scrollAction emptyWorld = Inr emptyWorld
   \<and> page_scroll okEnv
        (events (projr (runAction cfgS okEnv MainPage 0 stepS scrollAction emptyWorld))) MainPage
      = (0, 0)"
  by (simp add: runAction_def scrollAction_def action0_def okEnv_def)

section \<open>Converting a recording\<close>

lemma recording_paths:
  "artifactsDir cfgGif = ''/home/u/review-reports/artifacts''"
  "path_join ''/home/u/review-reports/artifacts'' ''zz.webm''
     = ''/home/u/review-reports/artifacts/zz.webm''"
  "path_join ''/home/u/review-reports/artifacts'' ''aa.webm''
     = ''/home/u/review-reports/artifacts/aa.webm''"
  by code_simp+

lemma recording_listing:
  "readdir ''/home/u/review-reports/artifacts''
     [(''/home/u/review-reports/artifacts/zz.webm'', Media)] = [''zz.webm'']"
  "readdir ''/home/u/review-reports/artifacts''
     [(''/home/u/review-reports/artifacts/zz.webm'', Media),
      (''/home/u/review-reports/artifacts/aa.webm'', Media)] = [''zz.webm'', ''aa.webm'']"
  "latestVideo [''zz.webm''] = Some ''zz.webm''"
  "latestVideo [''zz.webm'', ''aa.webm''] = Some ''zz.webm''"
  by code_simp+

lemma cfgGif_fields:
  "c_videoFormat cfgGif = ''gif''" "c_url cfgGif = None"
  "c_steps cfgGif = Some [stepOne, stepTwo]"
  by (simp_all add: cfgGif_def cfgS_def)

lemma first_recording:
  "runStep cfgGif envRec 0 stepOne emptyWorld
     = Inr \<lparr>files = [(''/home/u/review-reports/artifacts/zz.webm'', Media)],
            events = [NewContext, PageCall VideoPage (Goto ''http://localhost:7777/''),
                      PageCall VideoPage (WaitForTimeout 500), CloseContext],
            artifacts =
              [\<lparr>r_type = ''video'', r_name = ''One'',
                r_path = ''/home/u/review-reports/artifacts/zz.webm'', r_timestamp = 4,
                r_stepIndex = 0, r_stepName = Some ''One'', r_frameCount = None\<rparr>]\<rparr>"
  by (simp add: runStep_def videoStep_def stepUrl_def pageCall_def closeVideoContext_def
        finishVideo_def convertVideoToGif_def mediaArtifact_def Let_def
        cfgGif_fields envRec_def okEnv_def stepOne_def emptyWorld_def
        recording_paths recording_listing)

lemma second_recording:
  "runStep cfgGif envRec (Suc 0) stepTwo
     \<lparr>files = [(''/home/u/review-reports/artifacts/zz.webm'', Media)],
      events = [NewContext, PageCall VideoPage (Goto ''http://localhost:7777/''),
                PageCall VideoPage (WaitForTimeout 500), CloseContext],
      artifacts =
        [\<lparr>r_type = ''video'', r_name = ''One'',
          r_path = ''/home/u/review-reports/artifacts/zz.webm'', r_timestamp = 4,
          r_stepIndex = 0, r_stepName = Some ''One'', r_frameCount = None\<rparr>]\<rparr>
     = Inr \<lparr>files = [(''/home/u/review-reports/artifacts/zz.webm'', Media),
                     (''/home/u/review-reports/artifacts/aa.webm'', Media)],
            events = [NewContext, PageCall VideoPage (Goto ''http://localhost:7777/''),
                      PageCall VideoPage (WaitForTimeout 500), CloseContext,
                      NewContext, PageCall VideoPage (Goto ''http://localhost:7777/''),
                      PageCall VideoPage (WaitForTimeout 500), CloseContext],
            artifacts =
              [\<lparr>r_type = ''video'', r_name = ''One'',
                r_path = ''/home/u/review-reports/artifacts/zz.webm'', r_timestamp = 4,
                r_stepIndex = 0, r_stepName = Some ''One'', r_frameCount = None\<rparr>,
               \<lparr>r_type = ''video'', r_name = ''Two'',
                r_path = ''/home/u/review-reports/artifacts/zz.webm'', r_timestamp = 8,
                r_stepIndex = 1, r_stepName = Some ''Two'', r_frameCount = None\<rparr>]\<rparr>"
  by (simp add: runStep_def videoStep_def stepUrl_def pageCall_def closeVideoContext_def
        finishVideo_def convertVideoToGif_def mediaArtifact_def Let_def
        cfgGif_fields envRec_def okEnv_def stepTwo_def
        recording_paths recording_listing)

text \<open>
  What holds for the recording that the code finds, the \<open>.webm\<close> name \<open>v\<close> that
  sorts last in the artifacts directory: when the transcoder is unavailable the
  conversion returns false and changes nothing; when the conversion succeeds a \<open>gif\<close>
  artifact is appended and the file of \<open>v\<close> is deleted; when it fails a \<open>video\<close>
  artifact with the path of \<open>v\<close> is appended and that file stays.
\<close>

lemma convertVideoToGif_unavailable:
  "\<not> hasFFmpeg env \<Longrightarrow> convertVideoToGif env videoPath gifPath quality fs = (False, fs)"
  by (simp add: convertVideoToGif_def)

lemma convertVideoToGif_failure:
  "\<not> fst (convertVideoToGif env videoPath gifPath quality fs) \<Longrightarrow>
     fileExists fs p \<Longrightarrow> fileExists (snd (convertVideoToGif env videoPath gifPath quality fs)) p"
  by (simp add: convertVideoToGif_def Let_def split: if_splits)

lemma finishVideo_found:
  assumes "c_videoFormat config = ''gif''"
    and "latestVideo (readdir (artifactsDir config) (files w)) = Some v"
  shows "(fst (convertVideoToGif env (path_join (artifactsDir config) v)
              (path_join (artifactsDir config) (stepSlug step @ ''.gif''))
              (c_gifQuality config) (files w)) \<longrightarrow>
            artifacts (finishVideo config env stepIndex step w)
              = artifacts w @ [mediaArtifact ''gif''
                                 (path_join (artifactsDir config) (stepSlug step @ ''.gif''))
                                 env stepIndex step w]
            \<and> \<not> fileExists (files (finishVideo config env stepIndex step w))
                   (path_join (artifactsDir config) v))
       \<and> (\<not> fst (convertVideoToGif env (path_join (artifactsDir config) v)
              (path_join (artifactsDir config) (stepSlug step @ ''.gif''))
              (c_gifQuality config) (files w)) \<longrightarrow>
            artifacts (finishVideo config env stepIndex step w)
              = artifacts w @ [mediaArtifact ''video'' (path_join (artifactsDir config) v)
                                 env stepIndex step w]
            \<and> (fileExists (files w) (path_join (artifactsDir config) v) \<longrightarrow>
                 fileExists (files (finishVideo config env stepIndex step w))
                   (path_join (artifactsDir config) v)))"
proof -
  let ?vp = "path_join (artifactsDir config) v"
  let ?gp = "path_join (artifactsDir config) (stepSlug step @ ''.gif'')"
  let ?conv = "convertVideoToGif env ?vp ?gp (c_gifQuality config) (files w)"
  obtain b fs1 where c: "?conv = (b, fs1)" by (cases ?conv)
  have fin: "finishVideo config env stepIndex step w
      = (if b then w\<lparr>files := unlink ?vp fs1,
                      artifacts := artifacts w @ [mediaArtifact ''gif'' ?gp env stepIndex step w]\<rparr>
         else w\<lparr>files := fs1,
                 artifacts := artifacts w @ [mediaArtifact ''video'' ?vp env stepIndex step w]\<rparr>)"
    using assms c by (simp add: finishVideo_def Let_def)
  have 2: "fst ?conv \<longrightarrow>
            artifacts (finishVideo config env stepIndex step w)
              = artifacts w @ [mediaArtifact ''gif'' ?gp env stepIndex step w]
            \<and> \<not> fileExists (files (finishVideo config env stepIndex step w)) ?vp"
    using c by (simp add: fin)
  have 3: "\<not> fst ?conv \<longrightarrow>
            artifacts (finishVideo config env stepIndex step w)
              = artifacts w @ [mediaArtifact ''video'' ?vp env stepIndex step w]
            \<and> (fileExists (files w) ?vp \<longrightarrow>
                 fileExists (files (finishVideo config env stepIndex step w)) ?vp)"
  proof (intro impI conjI)
    assume n: "\<not> fst ?conv"
    then show "artifacts (finishVideo config env stepIndex step w)
              = artifacts w @ [mediaArtifact ''video'' ?vp env stepIndex step w]"
      using c by (simp add: fin)
    assume "fileExists (files w) ?vp"
    from convertVideoToGif_failure [OF n this]
    show "fileExists (files (finishVideo config env stepIndex step w)) ?vp"
      using n c by (simp add: fin)
  qed
  from 2 3 show ?thesis by blast
qed

text \<open>
  Claim C7 says that a step whose conversion to GIF fails keeps its original video as
  an artifact. The code takes for the recording of the step the \<open>.webm\<close> name that
  sorts last in the artifacts directory. In a run of two recorded steps without a
  transcoder, where the browser names the first recording \<open>zz.webm\<close> and the second
  \<open>aa.webm\<close>, the artifact of the second step has the path of the first recording,
  and the recording of the second step is on disk with no artifact for it.
\<close>

theorem second_recording_dropped:
  "\<not> isl (capture cfgGif envRec emptyWorld)
   \<and> map r_type (artifacts (projr (capture cfgGif envRec emptyWorld))) = [''video'', ''video'']
   \<and> map r_stepName (artifacts (projr (capture cfgGif envRec emptyWorld)))
       = [Some ''One'', Some ''Two'']
   \<and> map r_path (artifacts (projr (capture cfgGif envRec emptyWorld)))
       = [''/home/u/review-reports/artifacts/zz.webm'',
          ''/home/u/review-reports/artifacts/zz.webm'']
   \<and> fileExists (files (projr (capture cfgGif envRec emptyWorld)))
        ''/home/u/review-reports/artifacts/aa.webm''"
  by (simp add: capture_def singleUrl_def cfgGif_fields first_recording second_recording
        fileExists_def)

section \<open>Rounding\<close>

lemma round_even_err: "\<bar>of_int (round_even y) - y\<bar> \<le> 1 / 2"
proof -
  have "of_int \<lfloor>y\<rfloor> \<le> y" "y < of_int \<lfloor>y\<rfloor> + 1" by linarith+
  then show ?thesis by (auto simp: round_even_def Let_def)
qed

lemma round_even_of_int [simp]: "round_even (of_int z) = z"
  by (simp add: round_even_def Let_def)

lemma expo_bounds:
  assumes "0 < x"
  shows "2 powi (expo x) \<le> x \<and> x < 2 powi (expo x + 1)"
proof (cases "1 \<le> x")
  case True
  let ?m = "\<lfloor>x\<rfloor>"
  have m: "0 < ?m" using True by linarith
  from bitlen_bounds [OF m] have lo: "2 ^ nat (bitlen ?m - 1) \<le> ?m" and hi: "?m < 2 ^ nat (bitlen ?m)"
    by simp_all
  have b1: "1 \<le> bitlen ?m"
  proof (rule ccontr)
    assume "\<not> 1 \<le> bitlen ?m"
    then have "nat (bitlen ?m) = 0" by simp
    with hi m show False by simp
  qed
  have e: "expo x = bitlen ?m - 1" using True by (simp add: expo_def)
  have "(2::real) powi (bitlen ?m - 1) = 2 ^ nat (bitlen ?m - 1)"
    using b1 by (simp add: power_int_def)
  also have "\<dots> = of_int (2 ^ nat (bitlen ?m - 1))" by simp
  also have "\<dots> \<le> of_int ?m" using lo by (simp only: of_int_le_iff)
  also have "\<dots> \<le> x" by linarith
  finally have 1: "2 powi (expo x) \<le> x" by (simp add: e)
  have "?m + 1 \<le> 2 ^ nat (bitlen ?m)" using hi by simp
  then have "of_int (?m + 1) \<le> (of_int (2 ^ nat (bitlen ?m)) :: real)" by (simp only: of_int_le_iff)
  then have "of_int ?m + 1 \<le> (2::real) ^ nat (bitlen ?m)" by simp
  moreover have "x < of_int ?m + 1" by linarith
  ultimately have "x < (2::real) ^ nat (bitlen ?m)" by linarith
  moreover have "(2::real) powi (bitlen ?m - 1 + 1) = 2 ^ nat (bitlen ?m)"
    using b1 by (simp add: power_int_def)
  ultimately have 2: "x < 2 powi (expo x + 1)" by (simp only: e)
  from 1 2 show ?thesis by simp
next
  case False
  let ?y = "1 / x"
  let ?c = "\<lceil>?y\<rceil>"
  have y1: "1 < ?y" using False assms by simp
  have c: "0 < ?c - 1" using y1 by linarith
  from bitlen_bounds [OF c] have lo: "2 ^ nat (bitlen (?c - 1) - 1) \<le> ?c - 1"
    and hi: "?c - 1 < 2 ^ nat (bitlen (?c - 1))"
    by simp_all
  let ?b = "bitlen (?c - 1)"
  have b1: "1 \<le> ?b"
  proof (rule ccontr)
    assume "\<not> 1 \<le> ?b"
    then have "nat ?b = 0" by simp
    with hi c show False by simp
  qed
  have e: "expo x = - ?b" using False by (simp add: expo_def)
  have "?c \<le> 2 ^ nat ?b" using hi by simp
  then have "of_int ?c \<le> (of_int (2 ^ nat ?b) :: real)" by (simp only: of_int_le_iff)
  then have "of_int ?c \<le> (2::real) ^ nat ?b" by simp
  moreover have "?y \<le> of_int ?c" by linarith
  ultimately have yle: "?y \<le> 2 ^ nat ?b" by linarith
  have "(2::real) powi (- ?b) = 1 / 2 ^ nat ?b"
    using b1 by (simp add: power_int_def field_simps)
  moreover have "1 / 2 ^ nat ?b \<le> x"
  proof -
    have "1 \<le> x * 2 ^ nat ?b" using yle assms by (simp add: field_simps)
    then show ?thesis by (simp add: field_simps)
  qed
  ultimately have 1: "2 powi (expo x) \<le> x" by (simp add: e)
  have "of_int (2 ^ nat (?b - 1)) \<le> (of_int (?c - 1) :: real)" using lo by (simp only: of_int_le_iff)
  then have "(2::real) ^ nat (?b - 1) \<le> of_int ?c - 1" by simp
  moreover have "of_int ?c - 1 < ?y" by linarith
  ultimately have ylt: "2 ^ nat (?b - 1) < ?y" by linarith
  have p: "(2::real) powi (- ?b + 1) = 1 / 2 ^ nat (?b - 1)"
  proof (cases "?b = 1")
    case True
    then show ?thesis by simp
  next
    case False
    with b1 have "- ?b + 1 < 0" by simp
    then have "(2::real) powi (- ?b + 1) = inverse 2 ^ nat (- (- ?b + 1))"
      by (simp add: power_int_def)
    moreover have "nat (- (- ?b + 1)) = nat (?b - 1)" by simp
    ultimately show ?thesis by (simp add: field_simps power_inverse)
  qed
  have "x < 1 / 2 ^ nat (?b - 1)"
  proof -
    have "x * 2 ^ nat (?b - 1) < 1" using ylt assms by (simp add: field_simps)
    then show ?thesis by (simp add: field_simps)
  qed
  with p have 2: "x < 2 powi (expo x + 1)" by (simp add: e)
  from 1 2 show ?thesis by simp
qed

lemma ulp_pos: "0 < ulp x"
  by (simp add: ulp_def)

lemma fl_err_ulp: "\<bar>fl x - x\<bar> \<le> ulp x / 2"
proof (cases "x = 0")
  case True
  then show ?thesis using ulp_pos [of x] by (simp add: fl_def)
next
  case False
  let ?u = "ulp x"
  have u: "0 < ?u" by (rule ulp_pos)
  have "fl x - x = (of_int (round_even (x / ?u)) - x / ?u) * ?u"
    using False u by (simp add: fl_def field_simps)
  then have "\<bar>fl x - x\<bar> = \<bar>of_int (round_even (x / ?u)) - x / ?u\<bar> * ?u"
    using u by (simp add: abs_mult)
  also have "\<dots> \<le> (1 / 2) * ?u"
    using round_even_err [of "x / ?u"] u by (intro mult_right_mono) simp_all
  finally show ?thesis by simp
qed

lemma powi_mono2: "i \<le> j \<Longrightarrow> (2::real) powi i \<le> 2 powi j"
  by (rule power_int_increasing) simp_all

lemma normal_expo:
  assumes "2 powi (- 1022) \<le> x"
  shows "- 1022 \<le> expo x"
proof (rule ccontr)
  assume "\<not> - 1022 \<le> expo x"
  then have "expo x + 1 \<le> - 1022" by simp
  then have "(2::real) powi (expo x + 1) \<le> 2 powi (- 1022)" by (rule powi_mono2)
  moreover have "0 < x" using assms by (smt (verit) zero_less_power_int)
  ultimately show False using expo_bounds [of x] assms by linarith
qed

lemma ulp_normal:
  assumes "2 powi (- 1022) \<le> \<bar>x\<bar>"
  shows "ulp x \<le> \<bar>x\<bar> / 2 ^ 52"
proof -
  have pos: "0 < \<bar>x\<bar>" using assms by (smt (verit) zero_less_power_int)
  have "max (expo \<bar>x\<bar>) (- 1022) = expo \<bar>x\<bar>" using normal_expo [OF assms] by simp
  then have "ulp x = 2 powi (expo \<bar>x\<bar> - 52)" by (simp add: ulp_def)
  also have "\<dots> = 2 powi (expo \<bar>x\<bar>) / 2 ^ 52"
    by (simp add: power_int_diff)
  also have "\<dots> \<le> \<bar>x\<bar> / 2 ^ 52"
    using expo_bounds [OF pos] by (simp add: divide_right_mono)
  finally show ?thesis .
qed

lemma fl_err:
  assumes "2 powi (- 1022) \<le> \<bar>x\<bar>"
  shows "\<bar>fl x - x\<bar> \<le> \<bar>x\<bar> / 2 ^ 53"
proof -
  have "\<bar>fl x - x\<bar> \<le> ulp x / 2" by (rule fl_err_ulp)
  also have "\<dots> \<le> (\<bar>x\<bar> / 2 ^ 52) / 2" using ulp_normal [OF assms] by simp
  also have "\<dots> = \<bar>x\<bar> / 2 ^ 53" by simp
  finally show ?thesis .
qed

lemma fl_lower:
  assumes "0 < x"
  shows "2 powi (max (expo x) (- 1022)) \<le> fl x \<or> expo x < - 1022"
proof (cases "expo x < - 1022")
  case True
  then show ?thesis by simp
next
  case False
  then have m: "max (expo \<bar>x\<bar>) (- 1022) = expo x" using assms by simp
  let ?u = "(2::real) powi (expo x - 52)"
  have u: "ulp x = ?u" using m by (simp add: ulp_def)
  have upos: "0 < ?u" by simp
  have "2 powi (expo x) \<le> x" using expo_bounds [OF assms] by simp
  then have "2 powi (expo x) / ?u \<le> x / ?u" using upos by (simp add: divide_right_mono)
  moreover have "(2::real) powi (expo x) / ?u = of_int (2 ^ 52)"
    by (simp add: power_int_diff)
  ultimately have "of_int (2 ^ 52) \<le> x / ?u" by simp
  then have "2 ^ 52 \<le> \<lfloor>x / ?u\<rfloor>" by (simp only: le_floor_iff)
  then have "2 ^ 52 \<le> round_even (x / ?u)"
    by (auto simp: round_even_def Let_def)
  then have "(of_int (2 ^ 52) :: real) \<le> of_int (round_even (x / ?u))"
    by (simp only: of_int_le_iff)
  then have "of_int (2 ^ 52) * ?u \<le> of_int (round_even (x / ?u)) * ?u"
    using upos by (intro mult_right_mono) simp_all
  moreover have "of_int (2 ^ 52) * ?u = 2 powi (expo x)" by (simp add: power_int_diff)
  moreover have "fl x = of_int (round_even (x / ?u)) * ?u" using assms u by (simp add: fl_def)
  ultimately have "2 powi (expo x) \<le> fl x" by (simp only:)
  then show ?thesis using False by simp
qed

lemma fl_normal_ge:
  assumes "2 powi (- 1022) \<le> x"
  shows "2 powi (- 1022) \<le> fl x"
proof -
  have pos: "0 < x" using assms by (smt (verit) zero_less_power_int)
  have e: "- 1022 \<le> expo x" by (rule normal_expo [OF assms])
  with fl_lower [OF pos] have "2 powi (expo x) \<le> fl x" by simp
  moreover have "(2::real) powi (- 1022) \<le> 2 powi (expo x)" using e by (rule powi_mono2)
  ultimately show ?thesis by linarith
qed

lemma fl_of_nat:
  assumes "m < 2 ^ 53"
  shows "fl (of_nat m) = of_nat m"
proof (cases "m = 0")
  case True
  then show ?thesis by (simp add: fl_def)
next
  case False
  let ?x = "real m"
  have x1: "1 \<le> ?x" using False by simp
  then have pos: "0 < ?x" by simp
  let ?e = "expo ?x"
  have e0: "0 \<le> ?e"
  proof (rule ccontr)
    assume "\<not> 0 \<le> ?e"
    then have "?e + 1 \<le> 0" by simp
    then have "(2::real) powi (?e + 1) \<le> 2 powi 0" by (rule powi_mono2)
    with expo_bounds [OF pos] x1 show False by simp
  qed
  have e52: "?e \<le> 52"
  proof (rule ccontr)
    assume "\<not> ?e \<le> 52"
    then have "53 \<le> ?e" by simp
    then have "(2::real) powi 53 \<le> 2 powi ?e" by (rule powi_mono2)
    moreover have "?x < 2 ^ 53" using assms by (metis of_nat_less_iff of_nat_numeral of_nat_power)
    ultimately show False using expo_bounds [OF pos] by simp
  qed
  have m: "max (expo \<bar>?x\<bar>) (- 1022) = ?e" using e0 by simp
  have u: "ulp ?x = 1 / 2 ^ nat (52 - ?e)"
  proof -
    have "ulp ?x = 2 powi (- (52 - ?e))" using m by (simp add: ulp_def)
    also have "\<dots> = inverse (2 powi (52 - ?e))" by (simp only: power_int_minus)
    also have "\<dots> = 1 / 2 ^ nat (52 - ?e)" using e52 by (simp add: power_int_def field_simps)
    finally show ?thesis .
  qed
  have "?x / ulp ?x = of_int (int m * 2 ^ nat (52 - ?e))" by (simp add: u)
  then have "round_even (?x / ulp ?x) = int m * 2 ^ nat (52 - ?e)"
    by (simp only: round_even_of_int)
  then show ?thesis using False by (simp add: fl_def u)
qed

lemma fadd_nat: "m < 2 ^ 52 \<Longrightarrow> fadd (real m) 1 = real m + 1"
proof -
  assume "m < 2 ^ 52"
  then have "Suc m < 2 ^ 53" by simp
  from fl_of_nat [OF this] show ?thesis by (simp add: fadd_def add.commute)
qed

lemma sample_bounds:
  assumes d: "0 < d" and n: "n < 2 ^ 51" and k: "1 \<le> k" "k \<le> n"
    and normal: "2 powi (- 1022) \<le> d / (real n + 1)"
  shows "0 < fl (fl (d / (real n + 1)) * real k)"
    and "fl (fl (d / (real n + 1)) * real k) < d"
    and "\<bar>fl (fl (d / (real n + 1)) * real k) - d * real k / (real n + 1)\<bar>
           \<le> (d * real k / (real n + 1)) / 2 ^ 51"
proof -
  define x where "x = d / (real n + 1)"
  define q where "q = fl x"
  define y where "y = q * real k"
  define t where "t = fl y"
  define eps :: real where "eps = 1 / 2 ^ 53"
  have xpos: "0 < x" using d by (simp add: x_def)
  have kpos: "1 \<le> real k" using k by simp
  have nx: "2 powi (- 1022) \<le> \<bar>x\<bar>" using normal xpos by (simp add: x_def)
  have qe: "\<bar>q - x\<bar> \<le> x * eps" using fl_err [OF nx] xpos by (simp add: q_def eps_def)
  have qn: "2 powi (- 1022) \<le> q" using fl_normal_ge [of x] normal by (simp add: q_def x_def)
  have qpos: "0 < q" using qn by (smt (verit) zero_less_power_int)
  have "q * 1 \<le> q * real k" using kpos qpos by (intro mult_left_mono) simp_all
  then have yq: "q \<le> y" by (simp add: y_def)
  have ypos: "0 < y" using yq qpos by linarith
  have ny: "2 powi (- 1022) \<le> \<bar>y\<bar>" using qn yq by linarith
  have te: "\<bar>t - y\<bar> \<le> y * eps" using fl_err [OF ny] ypos by (simp add: t_def eps_def)
  have eps: "0 < eps" "eps < 1" by (simp_all add: eps_def)
  have tpos: "0 < t"
  proof -
    have "y * eps < y * 1" using ypos eps by (intro mult_strict_left_mono) simp_all
    with te show ?thesis by linarith
  qed
  have xk: "0 < x * real k" using xpos kpos by simp
  have yx: "\<bar>y - x * real k\<bar> \<le> x * real k * eps"
  proof -
    have "y - x * real k = (q - x) * real k" by (simp add: y_def left_diff_distrib)
    then have "\<bar>y - x * real k\<bar> = \<bar>q - x\<bar> * real k" by (simp add: abs_mult)
    also have "\<dots> \<le> (x * eps) * real k" using qe by (intro mult_right_mono) simp_all
    finally show ?thesis by (simp add: mult_ac)
  qed
  have "x * real k * (1 + eps) = x * real k + x * real k * eps" by (simp add: algebra_simps)
  then have yle: "y \<le> x * real k * (1 + eps)" using yx by linarith
  have "y * eps \<le> (x * real k * (1 + eps)) * eps" using yle eps by (intro mult_right_mono) simp_all
  also have "\<dots> \<le> (x * real k * 2) * eps"
    using xk eps by (intro mult_right_mono mult_left_mono) simp_all
  finally have ye: "y * eps \<le> x * real k * eps * 2" by (simp add: mult_ac)
  have tx: "\<bar>t - x * real k\<bar> \<le> x * real k * eps * 3"
    using te yx ye by linarith
  have third: "\<bar>t - x * real k\<bar> \<le> (x * real k) / 2 ^ 51"
  proof -
    have "x * real k * eps * 3 \<le> x * real k * (eps * 4)" using xk eps by simp
    also have "eps * 4 = 1 / 2 ^ 51" by (simp add: eps_def)
    finally show ?thesis using tx by simp
  qed
  have tlt: "t < d"
  proof -
    have n3: "real n * (eps * 3) < 1"
    proof -
      have "real n < 2 ^ 51" using n by (metis of_nat_less_iff of_nat_numeral of_nat_power)
      then have a: "real n * (eps * 3) < 2 ^ 51 * (eps * 3)"
        using eps by (intro mult_strict_right_mono) simp_all
      have b: "2 ^ 51 * (eps * 3) = 3 / 4" by (simp add: eps_def)
      from a show ?thesis unfolding b by linarith
    qed
    have "real k * (1 + eps * 3) \<le> real n * (1 + eps * 3)"
      using k eps by (intro mult_right_mono) simp_all
    also have "\<dots> < real n + 1" using n3 by (simp add: algebra_simps)
    finally have "real k * (1 + eps * 3) < real n + 1" .
    then have "x * (real k * (1 + eps * 3)) < x * (real n + 1)"
      using xpos by (intro mult_strict_left_mono) simp_all
    also have "\<dots> = d" by (simp add: x_def)
    finally have "x * real k * (1 + eps * 3) < d" by (simp add: mult_ac)
    moreover have "x * real k * (1 + eps * 3) = x * real k + x * real k * eps * 3"
      by (simp add: algebra_simps)
    then have "t \<le> x * real k * (1 + eps * 3)" using tx by linarith
    ultimately show ?thesis by linarith
  qed
  show "0 < fl (fl (d / (real n + 1)) * real k)" using tpos by (simp add: t_def y_def q_def x_def)
  show "fl (fl (d / (real n + 1)) * real k) < d" using tlt by (simp add: t_def y_def q_def x_def)
  show "\<bar>fl (fl (d / (real n + 1)) * real k) - d * real k / (real n + 1)\<bar>
           \<le> (d * real k / (real n + 1)) / 2 ^ 51"
    using third by (simp add: t_def y_def q_def x_def)
qed

section \<open>Frame sampling\<close>

text \<open>
  When every extraction succeeds, the frames returned are the first \<open>maxFrames\<close> of
  the sampling times, in order.
\<close>

lemma extractLoop_times:
  "(\<And>fs' c. exec_ok env fs' c) \<Longrightarrow> extractLoop env v out b i ts fs = (frames, fs1)
     \<Longrightarrow> map f_time frames = ts"
  by (induction ts arbitrary: i fs frames fs1) (auto simp: Let_def split: prod.splits)

lemma extractVideoFrames_times:
  assumes "hasFFmpeg env" "probe env fs v = Some d" "0 < d" "\<And>fs' c. exec_ok env fs' c"
  shows "map f_time (fst (extractVideoFrames env v out n fs)) = take n (frameTimes d n)"
proof -
  obtain frames fs1 where
    e: "extractLoop env v out (take (length (basename v) - length (extname v)) (basename v)) 0
          (take (min (length (frameTimes d n)) n) (frameTimes d n)) fs = (frames, fs1)"
    by (cases "extractLoop env v out
                 (take (length (basename v) - length (extname v)) (basename v)) 0
                 (take (min (length (frameTimes d n)) n) (frameTimes d n)) fs")
  from extractLoop_times [OF assms(4) e] have "map f_time frames = take n (frameTimes d n)"
    by (simp add: min_def)
  then show ?thesis using assms(1-3) e by (simp add: extractVideoFrames_def Let_def)
qed

lemma frameTimes_short:
  assumes "d \<le> 3" "n < 2 ^ 51"
  shows "frameTimes d n = map (\<lambda>i. fl (fl (d / (real n + 1)) * real i)) [1..<n + 1]"
proof -
  have n52: "n < 2 ^ 52" using assms(2) by simp
  have i52: "i < n \<Longrightarrow> i < 2 ^ 52" for i using n52 by simp
  have "map (\<lambda>i. fmul (fdiv d (fadd (real n) 1)) (fadd (real i) 1)) [0..<n]
        = map (\<lambda>i. fl (fl (d / (real n + 1)) * (real i + 1))) [0..<n]"
    using fadd_nat [OF n52] fadd_nat [OF i52] by (simp add: fmul_def fdiv_def)
  also have "\<dots> = map (\<lambda>i. fl (fl (d / (real n + 1)) * real i)) (map Suc [0..<n])"
    by (simp add: add.commute)
  also have "map Suc [0..<n] = [1..<n + 1]" by (simp add: map_Suc_upt)
  finally show ?thesis using assms(1) by (simp add: frameTimes_def)
qed

text \<open>
  Claim C5, as the code has it. For a duration \<open>d\<close> with \<open>0 < d \<le> 3\<close> and
  \<open>maxFrames = n\<close> (below \<open>2 ^ 51\<close>, with \<open>d / (n + 1)\<close> a normal double) the sampling
  times are the doubles \<open>fl (fl (d / (n + 1)) * i)\<close> for \<open>i = 1, \<dots>, n\<close>: each lies
  strictly between \<open>0\<close> and \<open>d\<close>, within a relative error of \<open>2 ^ -51\<close> of the evenly
  spaced \<open>d * i / (n + 1)\<close>. For \<open>d > 3\<close> the list of times is \<open>0.5\<close>, \<open>d / 2\<close> and
  \<open>max(0.5, d - 1)\<close>. What the extraction samples, when it succeeds, is the first
  \<open>maxFrames\<close> times of the list: all of them for \<open>d \<le> 3\<close>, the first \<open>min(3, n)\<close> for
  \<open>d > 3\<close>.
\<close>

theorem frame_sampling:
  "(0 < d \<and> d \<le> 3 \<and> n < 2 ^ 51 \<and> 2 powi (- 1022) \<le> d / (real n + 1) \<longrightarrow>
      frameTimes d n = map (\<lambda>i. fl (fl (d / (real n + 1)) * real i)) [1..<n + 1]
      \<and> (\<forall>i < n. 0 < frameTimes d n ! i \<and> frameTimes d n ! i < d
             \<and> \<bar>frameTimes d n ! i - d * real (i + 1) / (real n + 1)\<bar>
                 \<le> (d * real (i + 1) / (real n + 1)) / 2 ^ 51))
   \<and> (3 < d \<longrightarrow> frameTimes d n = [0.5, fl (d / 2), max 0.5 (fl (d - 1))])
   \<and> (0 < d \<and> hasFFmpeg env \<and> probe env fs v = Some d \<and> (\<forall>fs' c. exec_ok env fs' c) \<longrightarrow>
        map f_time (fst (extractVideoFrames env v out n fs)) = take n (frameTimes d n))"
proof (intro conjI impI)
  assume h: "0 < d \<and> d \<le> 3 \<and> n < 2 ^ 51 \<and> 2 powi (- 1022) \<le> d / (real n + 1)"
  then have d: "0 < d" "d \<le> 3" and n: "n < 2 ^ 51"
    and nm: "2 powi (- 1022) \<le> d / (real n + 1)"
    by simp_all
  show ft: "frameTimes d n = map (\<lambda>i. fl (fl (d / (real n + 1)) * real i)) [1..<n + 1]"
    using d(2) n by (rule frameTimes_short)
  show "\<forall>i < n. 0 < frameTimes d n ! i \<and> frameTimes d n ! i < d
             \<and> \<bar>frameTimes d n ! i - d * real (i + 1) / (real n + 1)\<bar>
                 \<le> (d * real (i + 1) / (real n + 1)) / 2 ^ 51"
  proof (intro allI impI)
    fix i assume i: "i < n"
    have nth: "frameTimes d n ! i = fl (fl (d / (real n + 1)) * real (i + 1))"
      using i by (simp add: ft nth_map_upt add.commute del: upt_Suc)
    have k: "1 \<le> i + 1" "i + 1 \<le> n" using i by simp_all
    from sample_bounds [OF d(1) n k nm]
    show "0 < frameTimes d n ! i \<and> frameTimes d n ! i < d
             \<and> \<bar>frameTimes d n ! i - d * real (i + 1) / (real n + 1)\<bar>
                 \<le> (d * real (i + 1) / (real n + 1)) / 2 ^ 51"
      unfolding nth by blast
  qed
next
  assume "3 < d"
  then show "frameTimes d n = [0.5, fl (d / 2), max 0.5 (fl (d - 1))]"
    by (simp add: frameTimes_def fdiv_def fsub_def)
next
  assume "0 < d \<and> hasFFmpeg env \<and> probe env fs v = Some d \<and> (\<forall>fs' c. exec_ok env fs' c)"
  then show "map f_time (fst (extractVideoFrames env v out n fs)) = take n (frameTimes d n)"
    by (intro extractVideoFrames_times) simp_all
qed

text \<open>
  A video of 2.4 seconds (the double nearest to 2.4) and three frames: the times are
  the doubles printed as 0.6, 1.2 and 1.7999999999999998. One of ten seconds: 0.5, 5
  and 9.
\<close>

theorem frame_sampling_witness:
  "frameTimes (fl 2.4) 3
     = [5404319552844595 / 2 ^ 53, 5404319552844595 / 2 ^ 52, 8106479329266892 / 2 ^ 52]
   \<and> frameTimes 10 3 = [0.5, 5, 9]
   \<and> map f_time (fst (extractVideoFrames okEnv ''/home/u/review-reports/artifacts/s-slideshow.webm''
                         ''/home/u/review-reports/artifacts'' 3 []))
     = frameTimes (fl 2.4) 3"
proof -
  have v: "fl 2.4 = 5404319552844595 / 2 ^ 51" by code_simp
  have "(2::real) powi (- 1022) \<le> 2 powi (- 1)" by (rule powi_mono2) simp
  moreover have "(2::real) powi (- 1) \<le> fl 2.4 / (real (3::nat) + 1)"
    unfolding v by (simp add: power_int_minus)
  ultimately have nm: "2 powi (- 1022) \<le> fl 2.4 / (real (3::nat) + 1)" by (rule order_trans)
  have "0 < fl 2.4 \<and> fl 2.4 \<le> 3 \<and> (3::nat) < 2 ^ 51" unfolding v by simp
  with nm have a: "0 < fl 2.4 \<and> fl 2.4 \<le> 3 \<and> (3::nat) < 2 ^ 51
           \<and> 2 powi (- 1022) \<le> fl 2.4 / (real (3::nat) + 1)"
    by (simp only: simp_thms)
  have b: "(3::real) < 10" by simp
  have pos: "0 < fl 2.4" unfolding v by simp
  have "hasFFmpeg okEnv \<and> probe okEnv [] ''/home/u/review-reports/artifacts/s-slideshow.webm'' = Some (fl 2.4)
           \<and> (\<forall>fs' c. exec_ok okEnv fs' c)"
    by (simp add: okEnv_def)
  with pos have c: "0 < fl 2.4 \<and> hasFFmpeg okEnv \<and> probe okEnv [] ''/home/u/review-reports/artifacts/s-slideshow.webm'' = Some (fl 2.4)
           \<and> (\<forall>fs' c. exec_ok okEnv fs' c)"
    by (simp only: simp_thms)
  note T = frame_sampling [of "fl 2.4" 3 okEnv "[]" "''/home/u/review-reports/artifacts/s-slideshow.webm''"
             "''/home/u/review-reports/artifacts''"]
  have "frameTimes (fl 2.4) 3 = map (\<lambda>i. fl (fl (fl 2.4 / (real (3::nat) + 1)) * real i)) [1..<3 + 1]"
    using T a by blast
  moreover have "[1..<3 + 1] = [1, 2, 3::nat]" by (simp add: upt_rec)
  moreover have "fl (fl (fl 2.4 / 4) * 1) = 5404319552844595 / 2 ^ 53"
    "fl (fl (fl 2.4 / 4) * 2) = 5404319552844595 / 2 ^ 52"
    "fl (fl (fl 2.4 / 4) * 3) = 8106479329266892 / 2 ^ 52"
    by code_simp+
  ultimately have 1: "frameTimes (fl 2.4) 3
     = [5404319552844595 / 2 ^ 53, 5404319552844595 / 2 ^ 52, 8106479329266892 / 2 ^ 52]"
    by simp
  have "frameTimes 10 3 = [0.5, fl (10 / 2), max 0.5 (fl (10 - 1))]"
    using frame_sampling [of 10 3 okEnv "[]" "[]" "[]"] b by blast
  moreover have "fl (10 / 2) = 5" "fl (10 - 1) = 9" by code_simp+
  ultimately have 2: "frameTimes 10 3 = [0.5, 5, 9]" by simp
  have "map f_time (fst (extractVideoFrames okEnv ''/home/u/review-reports/artifacts/s-slideshow.webm''
                         ''/home/u/review-reports/artifacts'' 3 []))
          = take 3 (frameTimes (fl 2.4) 3)"
    using T c by blast
  moreover have "length (frameTimes (fl 2.4) 3) = 3" unfolding 1 by simp
  then have "take 3 (frameTimes (fl 2.4) 3) = frameTimes (fl 2.4) 3"
    by (metis order_refl take_all)
  ultimately have 3: "map f_time (fst (extractVideoFrames okEnv ''/home/u/review-reports/artifacts/s-slideshow.webm''
                         ''/home/u/review-reports/artifacts'' 3 []))
          = frameTimes (fl 2.4) 3"
    by (simp only:)
  from 1 2 3 show ?thesis by simp
qed

text \<open>
  The claim as the specification words it fails twice. With \<open>maxFrames = 2\<close> a video
  of ten seconds is sampled at 0.5 and 5 only, not at three times. And the third time
  of the 2.4-second example is not the double 1.8: it is the double below it.
\<close>

theorem frame_sampling_counterexample:
  "map f_time (fst (extractVideoFrames tenSeconds ''/home/u/review-reports/artifacts/s-slideshow.webm''
                      ''/home/u/review-reports/artifacts'' 2 []))
     = [0.5, 5]
   \<and> frameTimes (fl 2.4) 3 ! 2 = 8106479329266892 / 2 ^ 52
   \<and> fl 1.8 = 8106479329266893 / 2 ^ 52"
proof -
  have ok: "hasFFmpeg tenSeconds" "\<And>fs' c. exec_ok tenSeconds fs' c"
    "probe tenSeconds [] ''/home/u/review-reports/artifacts/s-slideshow.webm'' = Some 10"
    by (simp_all add: tenSeconds_def okEnv_def)
  have "frameTimes 10 2 = [0.5, fl (10 / 2), max 0.5 (fl (10 - 1))]"
    by (simp add: frameTimes_def fdiv_def fsub_def)
  moreover have "fl (10 / 2) = 5" "fl (10 - 1) = 9" by code_simp+
  ultimately have ft: "take 2 (frameTimes 10 2) = [0.5, 5]" by simp
  from extractVideoFrames_times [OF ok(1,3) _ ok(2), of "''/home/u/review-reports/artifacts''" 2]
  have 1: "map f_time (fst (extractVideoFrames tenSeconds ''/home/u/review-reports/artifacts/s-slideshow.webm''
                      ''/home/u/review-reports/artifacts'' 2 []))
     = [0.5, 5]"
    by (simp add: ft)
  have 2: "frameTimes (fl 2.4) 3 ! 2 = 8106479329266892 / 2 ^ 52" by code_simp
  have 3: "fl 1.8 = 8106479329266893 / 2 ^ 52" by code_simp
  from 1 2 3 show ?thesis by simp
qed

section \<open>Normalised paths\<close>

lemma splitAcc_append:
  "splitAcc acc (xs @ CHR ''/'' # ys) = splitAcc acc xs @ splitSlash ys"
  by (induction xs arbitrary: acc) (simp_all add: splitSlash_def)

lemma splitAcc_plain:
  "CHR ''/'' \<notin> set s \<Longrightarrow> splitAcc acc s = [rev acc @ s]"
  by (induction s arbitrary: acc) auto

lemma takeWhile_stop:
  "\<not> P y \<Longrightarrow> takeWhile P (xs @ y # ys) = takeWhile P xs"
  by (induction xs) auto

lemma joinSlash_snoc: "\<exists>pre. joinSlash (xs @ [b]) = pre @ b"
proof (induction xs)
  case Nil
  then show ?case by simp
next
  case (Cons x xs)
  then obtain pre where p: "joinSlash (xs @ [b]) = pre @ b" by blast
  obtain t ts where t: "xs @ [b] = t # ts" by (cases "xs @ [b]") simp_all
  have "joinSlash ((x # xs) @ [b]) = x @ ''/'' @ joinSlash (xs @ [b])"
    by (simp add: t)
  then show ?case by (simp add: p)
qed

text \<open>
  A path that does not end in a separator and whose last segment is neither \<open>.\<close> nor
  \<open>..\<close> keeps that segment at its end when it is normalised.
\<close>

lemma basename_plain:
  assumes "p \<noteq> []" "last p \<noteq> CHR ''/''"
  shows "basename p = rev (takeWhile (\<lambda>c. c \<noteq> CHR ''/'') (rev p))"
proof -
  from assms obtain c cs where r: "rev p = c # cs" and c: "c \<noteq> CHR ''/''"
    by (cases "rev p") (auto simp: last_rev [symmetric] simp del: last_rev)
  then show ?thesis by (simp add: basename_def)
qed

lemma split_last_segment:
  assumes "p \<noteq> []" "last p \<noteq> CHR ''/''"
  shows "\<exists>ss. splitSlash p = ss @ [basename p]"
proof -
  let ?P = "\<lambda>c. c \<noteq> CHR ''/''"
  let ?b = "basename p"
  have b: "?b = rev (takeWhile ?P (rev p))" using assms by (rule basename_plain)
  have nb: "CHR ''/'' \<notin> set ?b" unfolding b by (auto dest: set_takeWhileD)
  have p: "p = rev (dropWhile ?P (rev p)) @ ?b"
    unfolding b by (metis rev_append rev_rev_ident takeWhile_dropWhile_id)
  show ?thesis
  proof (cases "dropWhile ?P (rev p)")
    case Nil
    with p have "p = ?b" by simp
    then have "splitSlash p = [] @ [?b]"
      using splitAcc_plain [OF nb, of "[]"] by (simp add: splitSlash_def)
    then show ?thesis by blast
  next
    case (Cons c cs)
    have "c = CHR ''/''" using hd_dropWhile [of ?P "rev p"] Cons by auto
    with p Cons have "p = rev cs @ CHR ''/'' # ?b" by simp
    then have "splitSlash p = splitAcc [] (rev cs) @ splitSlash ?b"
      unfolding splitSlash_def by (metis splitAcc_append splitSlash_def)
    also have "splitSlash ?b = [?b]"
      using splitAcc_plain [OF nb, of "[]"] by (simp add: splitSlash_def)
    finally show ?thesis by blast
  qed
qed

lemma normalize_basename:
  assumes "p \<noteq> []" "last p \<noteq> CHR ''/''" "basename p \<noteq> ''.''" "basename p \<noteq> ''..''"
  shows "suffix (basename p) (normalize p)"
proof -
  let ?b = "basename p"
  have "?b \<noteq> []"
  proof -
    from assms(1,2) obtain c cs where "rev p = c # cs" "c \<noteq> CHR ''/''"
      by (cases "rev p") (auto simp: last_rev [symmetric] simp del: last_rev)
    then show ?thesis by (simp add: basename_def)
  qed
  from split_last_segment [OF assms(1,2)] obtain ss where s: "splitSlash p = ss @ [?b]" by blast
  have st: "normStep f ?b res = ?b # res" for f res
    using assms(3,4) \<open>?b \<noteq> []\<close> by (simp add: normStep_def)
  have "rev (fold (normStep f) (splitSlash p) []) = rev (fold (normStep f) ss []) @ [?b]" for f
    by (simp add: s st)
  then obtain pre where pre: "joinSlash (rev (fold (normStep (hd p \<noteq> CHR ''/'')) (splitSlash p) [])) = pre @ ?b"
    using joinSlash_snoc by metis
  have "normalize p = (if hd p = CHR ''/'' then ''/'' else []) @ pre @ ?b"
    using assms(1,2) \<open>?b \<noteq> []\<close> pre by (simp add: normalize_def Let_def)
  then show ?thesis by (auto simp: suffix_def)
qed

lemma basename_append_slash:
  assumes "name \<noteq> []" "last name \<noteq> CHR ''/''"
  shows "basename (dir @ CHR ''/'' # name) = basename name"
proof -
  let ?P = "\<lambda>c. c \<noteq> CHR ''/''"
  have "takeWhile ?P (rev name @ CHR ''/'' # rev dir) = takeWhile ?P (rev name)"
    by (rule takeWhile_stop) simp
  moreover have "dir @ CHR ''/'' # name \<noteq> []" "last (dir @ CHR ''/'' # name) \<noteq> CHR ''/''"
    using assms by simp_all
  ultimately show ?thesis using assms by (simp add: basename_plain)
qed

lemma path_join_basename:
  assumes "name \<noteq> []" "last name \<noteq> CHR ''/''" "basename name \<noteq> ''.''" "basename name \<noteq> ''..''"
  shows "suffix (basename name) (path_join dir name)"
proof (cases "dir = []")
  case True
  then show ?thesis using normalize_basename [OF assms] assms(1) by (simp add: path_join_def)
next
  case False
  let ?p = "dir @ CHR ''/'' # name"
  have b: "basename ?p = basename name" using assms(1,2) by (rule basename_append_slash)
  have "suffix (basename ?p) (normalize ?p)"
    using assms by (intro normalize_basename) (simp_all add: b)
  then show ?thesis using False assms(1) by (simp add: path_join_def b)
qed

text \<open>
  So a file name that ends in an extension, or in any three characters or more without
  a separator, keeps that ending.
\<close>

lemma path_join_suffix:
  assumes "CHR ''/'' \<notin> set s" "3 \<le> length s"
  shows "suffix s (path_join dir (n @ s))"
proof -
  let ?P = "\<lambda>c. c \<noteq> CHR ''/''"
  have ne: "s \<noteq> []" using assms(2) by auto
  then have l: "last (n @ s) \<noteq> CHR ''/''" using assms(1) by (metis last_appendR last_in_set)
  have "takeWhile ?P (rev s @ rev n) = rev s @ takeWhile ?P (rev n)"
    using assms(1) by (simp add: takeWhile_append)
  then have b: "basename (n @ s) = rev (takeWhile ?P (rev n)) @ s"
    using ne l by (simp add: basename_plain)
  have len: "3 \<le> length (basename (n @ s))" using assms(2) by (simp add: b)
  have d: "basename (n @ s) \<noteq> ''.''" "basename (n @ s) \<noteq> ''..''"
    using len by auto
  have "suffix (basename (n @ s)) (path_join dir (n @ s))"
    using ne l d by (intro path_join_basename) simp_all
  moreover have "suffix s (basename (n @ s))" unfolding b by (rule suffix_appendI) simp
  ultimately show ?thesis by (auto simp: suffix_def)
qed


section \<open>The slideshow clean-up\<close>


lemma digit_no_slash: "d < 10 \<Longrightarrow> digit d \<noteq> CHR ''/''"
proof
  assume d: "d < 10" and e: "digit d = CHR ''/''"
  have "of_char (digit d) = (48 + d) mod (256::nat)" by (simp add: digit_def)
  with d have "of_char (digit d) = (48 + d :: nat)" by simp
  with e show False by simp
qed

lemma String_nat_no_slash: "CHR ''/'' \<notin> set (String_nat n)"
proof (induction n rule: String_nat.induct)
  case (1 n)
  show ?case
  proof (cases "n < 10")
    case True
    then show ?thesis using digit_no_slash [of n] by (subst String_nat.simps) auto
  next
    case False
    have "n mod 10 < 10" by simp
    from digit_no_slash [OF this] 1 False show ?thesis
      by (subst String_nat.simps) auto
  qed
qed



text \<open>The path of a numbered frame ends in \<open>-slide-\<close>, the number and \<open>.png\<close>.\<close>

lemma slidePath_suffix:
  "suffix (''-slide-'' @ padStart 3 (String_nat k) @ ''.png'') (slidePath config step k)"
  unfolding slidePath_def
  by (rule path_join_suffix) (auto simp: padStart_def String_nat_no_slash)


lemma suffix_last: "suffix s p \<Longrightarrow> s \<noteq> [] \<Longrightarrow> last p = last s"
  by (auto simp: suffix_def)


lemma slidePath_not_slideshow:
  "slidePath config step k \<noteq> path_join (artifactsDir config) (stepSlug step @ ''-slideshow.webm'')"
proof
  assume e: "slidePath config step k
               = path_join (artifactsDir config) (stepSlug step @ ''-slideshow.webm'')"
  have "last (slidePath config step k) = CHR ''g''"
    using suffix_last [OF slidePath_suffix] by simp
  moreover have "suffix ''-slideshow.webm''
                   (path_join (artifactsDir config) (stepSlug step @ ''-slideshow.webm''))"
    by (rule path_join_suffix) simp_all
  then have "last (path_join (artifactsDir config) (stepSlug step @ ''-slideshow.webm'')) = CHR ''m''"
    using suffix_last by fastforce
  ultimately show False using e by simp
qed















lemma generateAIDescription_keeps:
  "files (snd (generateAIDescription env config images cr sc w)) = files w
   \<and> artifacts (snd (generateAIDescription env config images cr sc w)) = artifacts w"
  by (simp add: generateAIDescription_def generateWithRetry_def callService_def Let_def
        split: gen_result.splits)

lemma describeStep_keeps:
  "files (snd (describeStep config env arts frames i step w)) = files w
   \<and> artifacts (snd (describeStep config env arts frames i step w)) = artifacts w"
  by (simp add: describeStep_def generateAIDescription_def generateWithRetry_def callService_def
        Let_def split: prod.splits sum.splits gen_result.splits)

lemma describeSteps_keeps:
  "files (snd (describeSteps config env arts frames i ss w)) = files w
   \<and> artifacts (snd (describeSteps config env arts frames i ss w)) = artifacts w"
  by (induction ss arbitrary: i w) (simp_all add: case_prod_beta describeStep_keeps)











lemma cleanupSlides_kept:
  "\<not> includes_str p ''-slide-'' \<Longrightarrow> fileExists (cleanupSlides shots fs) p = fileExists fs p"
  unfolding cleanupSlides_def
  by (induction shots arbitrary: fs) auto






subsection \<open>The files a slideshow step leaves\<close>




section \<open>The end-to-end scenario\<close>






section \<open>A failing step description\<close>

lemma describeSteps_length:
  "length (fst (describeSteps config env arts frames i0 ss w)) = length ss"
  by (induction ss arbitrary: i0 w) (simp_all add: Let_def case_prod_beta)

lemma describeSteps_nth:
  "j < length ss \<Longrightarrow>
     fst (describeSteps config env arts frames i0 ss w) ! j
       = fst (describeStep config env arts frames (i0 + j) (ss ! j)
                (snd (describeSteps config env arts frames i0 (take j ss) w)))"
proof (induction ss arbitrary: i0 w j)
  case Nil
  then show ?case by simp
next
  case (Cons s ss)
  obtain d w1 where d: "describeStep config env arts frames i0 s w = (d, w1)"
    by (cases "describeStep config env arts frames i0 s w")
  show ?case
  proof (cases j)
    case 0
    then show ?thesis by (simp add: d Let_def case_prod_beta)
  next
    case (Suc j')
    with Cons.prems have "j' < length ss" by simp
    from Cons.IH [OF this, of "Suc i0" w1] show ?thesis
      by (simp add: Suc d Let_def case_prod_beta)
  qed
qed

lemma describeStep_entry:
  "d_stepIndex (fst (describeStep config env arts frames i step w)) = i
   \<and> d_stepName (fst (describeStep config env arts frames i step w)) = s_name step"
  by (simp add: describeStep_def Let_def split: prod.splits sum.splits)

text \<open>The step whose generation throws gets its manual description, or \<open>null\<close>.\<close>

lemma describeStep_failure:
  assumes "\<not> (nonEmpty (s_description step) \<and> \<not> c_forceAI config)"
    and "stepImages config arts frames i \<noteq> []"
    and "fst (generateAIDescription env config (stepImages config arts frames i)
                (orElse (c_clientRequest config) []) (''Step: '' @ s_name step) w) = Inl e"
  shows "d_text (fst (describeStep config env arts frames i step w))
           = (case s_description step of
                None \<Rightarrow> None
              | Some s \<Rightarrow> if s = [] then None else Some s)"
proof -
  obtain r w1 where g: "generateAIDescription env config (stepImages config arts frames i)
                (orElse (c_clientRequest config) []) (''Step: '' @ s_name step) w = (r, w1)"
    by (cases "generateAIDescription env config (stepImages config arts frames i)
                (orElse (c_clientRequest config) []) (''Step: '' @ s_name step) w")
  with assms(3) have "r = Inl e" by simp
  with assms(1,2) g show ?thesis
    by (cases "s_description step") (auto simp: describeStep_def Let_def)
qed

text \<open>
  A generation that has an API key and at least one readable image calls the service,
  and what it returns is the text when the service answers with one.
\<close>

lemma generateWithRetry_events:
  "\<exists>suf. events (snd (generateWithRetry env prompt parts w))
            = events w @ GenerateText prompt parts # suf"
  by (simp add: generateWithRetry_def callService_def split: gen_result.splits)

lemma generateWithRetry_text:
  "(\<And>evs. generateText env evs prompt parts = Text t)
     \<Longrightarrow> fst (generateWithRetry env prompt parts w) = Inr t"
  by (simp add: generateWithRetry_def callService_def)

lemma generateAIDescription_events:
  "\<exists>suf. events (snd (generateAIDescription env config images cr sc w)) = events w @ suf"
proof (cases "apiKey env = None
              \<or> imageParts (files w) (take (orElseNat (c_maxScreenshotsPerStep config) 10) images) = []")
  case True
  then show ?thesis by (auto simp: generateAIDescription_def Let_def)
next
  case False
  with generateWithRetry_events [of env "buildPrompt cr sc"
         "imageParts (files w) (take (orElseNat (c_maxScreenshotsPerStep config) 10) images)" w]
  show ?thesis by (auto simp: generateAIDescription_def Let_def)
qed

lemma describeStep_events:
  "\<exists>suf. events (snd (describeStep config env arts frames i step w)) = events w @ suf"
proof -
  let ?g = "generateAIDescription env config (stepImages config arts frames i)
              (orElse (c_clientRequest config) []) (''Step: '' @ s_name step) w"
  obtain r w1 where g: "?g = (r, w1)" by (cases ?g)
  from generateAIDescription_events [of env config "stepImages config arts frames i"
         "orElse (c_clientRequest config) []" "''Step: '' @ s_name step" w] g
  obtain suf where "events w1 = events w @ suf" by auto
  with g show ?thesis
    by (cases r) (auto simp: describeStep_def Let_def)
qed

lemma describeSteps_events:
  "\<exists>suf. events (snd (describeSteps config env arts frames i ss w)) = events w @ suf"
proof (induction ss arbitrary: i w)
  case Nil
  then show ?case by simp
next
  case (Cons s ss)
  obtain d w1 where d: "describeStep config env arts frames i s w = (d, w1)"
    by (cases "describeStep config env arts frames i s w")
  from describeStep_events [of config env arts frames i s w] d
  obtain s1 where s1: "events w1 = events w @ s1" by auto
  from Cons.IH [of "i + 1" w1] obtain s2 where
    "events (snd (describeSteps config env arts frames (i + 1) ss w1)) = events w1 @ s2" by blast
  then show ?case by (simp add: d case_prod_beta s1)
qed

lemma describeStep_due:
  assumes "\<not> (nonEmpty (s_description step) \<and> \<not> c_forceAI config)"
    and "apiKey env \<noteq> None"
    and "stepParts config arts frames (files w) i \<noteq> []"
  shows "GenerateText (stepPrompt config step) (stepParts config arts frames (files w) i)
           \<in> set (events (snd (describeStep config env arts frames i step w)))"
    and "(\<And>evs. generateText env evs (stepPrompt config step)
                   (stepParts config arts frames (files w) i) = Text t)
           \<Longrightarrow> d_text (fst (describeStep config env arts frames i step w)) = Some t"
proof -
  let ?imgs = "stepImages config arts frames i"
  let ?parts = "stepParts config arts frames (files w) i"
  let ?prompt = "stepPrompt config step"
  have ne: "?imgs \<noteq> []"
    using assms(3) by (auto simp: stepParts_def imageParts_def)
  have g: "generateAIDescription env config ?imgs (orElse (c_clientRequest config) [])
             (''Step: '' @ s_name step) w = generateWithRetry env ?prompt ?parts w"
    using assms(2,3) by (auto simp: generateAIDescription_def stepParts_def stepPrompt_def Let_def)
  obtain r w1 where r: "generateWithRetry env ?prompt ?parts w = (r, w1)"
    by (cases "generateWithRetry env ?prompt ?parts w")
  from generateWithRetry_events [of env ?prompt ?parts w] r
  have ev: "GenerateText ?prompt ?parts \<in> set (events w1)" by auto
  have w1: "snd (describeStep config env arts frames i step w) = w1"
    using assms(1) ne g r by (cases r) (auto simp: describeStep_def Let_def)
  show "GenerateText ?prompt ?parts
           \<in> set (events (snd (describeStep config env arts frames i step w)))"
    using ev by (simp add: w1)
  assume "\<And>evs. generateText env evs ?prompt ?parts = Text t"
  from generateWithRetry_text [of env ?prompt ?parts t w, OF this] r have "r = Inr t" by simp
  then show "d_text (fst (describeStep config env arts frames i step w)) = Some t"
    using assms(1) ne g r by (auto simp: describeStep_def Let_def)
qed

lemma describeSteps_due:
  assumes "j < length ss"
    and "\<not> (nonEmpty (s_description (ss ! j)) \<and> \<not> c_forceAI config)"
    and "apiKey env \<noteq> None"
    and "stepParts config arts frames (files w) (i0 + j) \<noteq> []"
  shows "GenerateText (stepPrompt config (ss ! j)) (stepParts config arts frames (files w) (i0 + j))
           \<in> set (events (snd (describeSteps config env arts frames i0 ss w)))"
  using assms
proof (induction ss arbitrary: i0 w j)
  case Nil
  then show ?case by simp
next
  case (Cons s ss)
  obtain d w1 where d: "describeStep config env arts frames i0 s w = (d, w1)"
    by (cases "describeStep config env arts frames i0 s w")
  have f1: "files w1 = files w"
    using describeStep_keeps [of config env arts frames i0 s w] d by simp
  show ?case
  proof (cases j)
    case 0
    with Cons.prems have "GenerateText (stepPrompt config s) (stepParts config arts frames (files w) i0)
           \<in> set (events (snd (describeStep config env arts frames i0 s w)))"
      by (intro describeStep_due(1)) simp_all
    then have "GenerateText (stepPrompt config s) (stepParts config arts frames (files w) i0)
           \<in> set (events w1)" by (simp add: d)
    moreover from describeSteps_events [of config env arts frames "i0 + 1" ss w1]
    obtain suf where "events (snd (describeSteps config env arts frames (i0 + 1) ss w1))
                        = events w1 @ suf" by blast
    ultimately show ?thesis by (simp add: 0 d case_prod_beta)
  next
    case (Suc j')
    with Cons.prems have "j' < length ss"
      "\<not> (nonEmpty (s_description (ss ! j')) \<and> \<not> c_forceAI config)"
      "stepParts config arts frames (files w1) (Suc i0 + j') \<noteq> []"
      by (simp_all add: f1)
    from Cons.IH [OF this(1,2) Cons.prems(3) this(3)] show ?thesis
      by (simp add: Suc d case_prod_beta f1)
  qed
qed

lemma describeOverall_due:
  assumes "\<not> nonEmpty (c_description config)"
    and "apiKey env \<noteq> None"
    and "overallParts config arts (files w) \<noteq> []"
  shows "GenerateText (overallPrompt config) (overallParts config arts (files w))
           \<in> set (events (snd (describeOverall config env arts w)))"
    and "(\<And>evs. generateText env evs (overallPrompt config)
                   (overallParts config arts (files w)) = Text t)
           \<Longrightarrow> fst (describeOverall config env arts w) = Some t"
proof -
  let ?imgs = "take 5 (map r_path (filter (\<lambda>a. r_type a = ''screenshot'') arts))"
  let ?parts = "overallParts config arts (files w)"
  let ?prompt = "overallPrompt config"
  have ne: "?imgs \<noteq> []"
    using assms(3) by (auto simp: overallParts_def imageParts_def)
  have g: "generateAIDescription env config ?imgs (orElse (c_clientRequest config) [])
             (''Overall review: '' @ c_title config) w = generateWithRetry env ?prompt ?parts w"
    using assms(2,3)
    by (auto simp: generateAIDescription_def overallParts_def overallPrompt_def Let_def)
  obtain r w1 where r: "generateWithRetry env ?prompt ?parts w = (r, w1)"
    by (cases "generateWithRetry env ?prompt ?parts w")
  from generateWithRetry_events [of env ?prompt ?parts w] r
  have ev: "GenerateText ?prompt ?parts \<in> set (events w1)" by auto
  have w1: "snd (describeOverall config env arts w) = w1"
    using assms(1) ne g r by (cases r) (auto simp: describeOverall_def Let_def)
  show "GenerateText ?prompt ?parts \<in> set (events (snd (describeOverall config env arts w)))"
    using ev by (simp add: w1)
  assume "\<And>evs. generateText env evs ?prompt ?parts = Text t"
  from generateWithRetry_text [of env ?prompt ?parts t w, OF this] r have "r = Inr t" by simp
  then show "fst (describeOverall config env arts w) = Some t"
    using assms(1) ne g r by (auto simp: describeOverall_def Let_def)
qed

lemma generateDescriptions_parts:
  assumes "c_steps config = Some ss"
  shows "ds_steps (fst (generateDescriptions config env frames w))
           = fst (describeSteps config env (artifacts w) frames 0 ss w)"
    and "ds_description (fst (generateDescriptions config env frames w))
           = fst (describeOverall config env (artifacts w)
                    (snd (describeSteps config env (artifacts w) frames 0 ss w)))"
    and "events (snd (generateDescriptions config env frames w))
           = events (snd (describeOverall config env (artifacts w)
                            (snd (describeSteps config env (artifacts w) frames 0 ss w))))"
  using assms
  by (simp_all add: generateDescriptions_def Let_def case_prod_beta saveCachedDescriptions_def)

text \<open>
  Claim C8. When the generation for step \<open>i\<close> throws, the run goes on. Every step has
  its entry, with its index and name. The entry of step \<open>i\<close> carries the manual
  description of the step when it has one, and \<open>null\<close> otherwise. For every step for
  which a generation is due (no manual description to keep, an API key, a readable image)
  the service is called with the prompt and the images of that step, and when the
  service answers that call with a text, the text is the description of the step. A
  manual description that is kept is kept. The overall description is generated after
  the loop in the same way.
\<close>

theorem step_failure_is_isolated:
  assumes "i < length ss"
    and "\<not> (nonEmpty (s_description (ss ! i)) \<and> \<not> c_forceAI config)"
    and "stepImages config arts frames i \<noteq> []"
    and "fst (generateAIDescription env config (stepImages config arts frames i)
                (orElse (c_clientRequest config) []) (''Step: '' @ s_name (ss ! i))
                (snd (describeSteps config env arts frames 0 (take i ss) w))) = Inl e"
  shows "length (fst (describeSteps config env arts frames 0 ss w)) = length ss
       \<and> (\<forall>j < length ss.
             d_stepIndex (fst (describeSteps config env arts frames 0 ss w) ! j) = j
             \<and> d_stepName (fst (describeSteps config env arts frames 0 ss w) ! j) = s_name (ss ! j))
       \<and> (\<forall>s. s_description (ss ! i) = Some s \<and> s \<noteq> [] \<longrightarrow>
             d_text (fst (describeSteps config env arts frames 0 ss w) ! i) = Some s)
       \<and> (s_description (ss ! i) = None \<or> s_description (ss ! i) = Some [] \<longrightarrow>
             d_text (fst (describeSteps config env arts frames 0 ss w) ! i) = None)
       \<and> (\<forall>j < length ss.
             \<not> (nonEmpty (s_description (ss ! j)) \<and> \<not> c_forceAI config)
             \<and> apiKey env \<noteq> None \<and> stepParts config arts frames (files w) j \<noteq> [] \<longrightarrow>
               GenerateText (stepPrompt config (ss ! j)) (stepParts config arts frames (files w) j)
                 \<in> set (events (snd (describeSteps config env arts frames 0 ss w)))
               \<and> (\<forall>t. (\<forall>evs. generateText env evs (stepPrompt config (ss ! j))
                                 (stepParts config arts frames (files w) j) = Text t) \<longrightarrow>
                        d_text (fst (describeSteps config env arts frames 0 ss w) ! j) = Some t))
       \<and> (\<forall>j < length ss.
             nonEmpty (s_description (ss ! j)) \<and> \<not> c_forceAI config \<longrightarrow>
               d_text (fst (describeSteps config env arts frames 0 ss w) ! j)
                 = s_description (ss ! j))
       \<and> (c_steps config = Some ss \<and> arts = artifacts w \<longrightarrow>
             ds_steps (fst (generateDescriptions config env frames w))
               = fst (describeSteps config env arts frames 0 ss w)
             \<and> (\<not> nonEmpty (c_description config) \<and> apiKey env \<noteq> None
                \<and> overallParts config arts (files w) \<noteq> [] \<longrightarrow>
                  GenerateText (overallPrompt config) (overallParts config arts (files w))
                    \<in> set (events (snd (generateDescriptions config env frames w)))
                  \<and> (\<forall>t. (\<forall>evs. generateText env evs (overallPrompt config)
                                    (overallParts config arts (files w)) = Text t) \<longrightarrow>
                           ds_description (fst (generateDescriptions config env frames w))
                             = Some t)))"
proof -
  let ?run = "describeSteps config env arts frames 0 ss w"
  let ?before = "\<lambda>j. snd (describeSteps config env arts frames 0 (take j ss) w)"
  have nth: "j < length ss \<Longrightarrow>
               fst ?run ! j = fst (describeStep config env arts frames j (ss ! j) (?before j))" for j
    using describeSteps_nth [of j ss config env arts frames 0 w] by simp
  have fb: "files (?before j) = files w" for j
    by (simp add: describeSteps_keeps)
  have 1: "length (fst ?run) = length ss" by (rule describeSteps_length)
  have 2: "\<forall>j < length ss. d_stepIndex (fst ?run ! j) = j \<and> d_stepName (fst ?run ! j) = s_name (ss ! j)"
    by (simp add: nth describeStep_entry)
  have fail: "d_text (fst ?run ! i)
                = (case s_description (ss ! i) of
                     None \<Rightarrow> None
                   | Some s \<Rightarrow> if s = [] then None else Some s)"
    using describeStep_failure [OF assms(2,3,4)] nth [OF assms(1)] by simp
  have 3: "\<forall>s. s_description (ss ! i) = Some s \<and> s \<noteq> [] \<longrightarrow> d_text (fst ?run ! i) = Some s"
    by (simp add: fail)
  have 4: "s_description (ss ! i) = None \<or> s_description (ss ! i) = Some [] \<longrightarrow>
             d_text (fst ?run ! i) = None"
    by (auto simp: fail)
  have 5: "\<forall>j < length ss.
             \<not> (nonEmpty (s_description (ss ! j)) \<and> \<not> c_forceAI config)
             \<and> apiKey env \<noteq> None \<and> stepParts config arts frames (files w) j \<noteq> [] \<longrightarrow>
               GenerateText (stepPrompt config (ss ! j)) (stepParts config arts frames (files w) j)
                 \<in> set (events (snd ?run))
               \<and> (\<forall>t. (\<forall>evs. generateText env evs (stepPrompt config (ss ! j))
                                 (stepParts config arts frames (files w) j) = Text t) \<longrightarrow>
                        d_text (fst ?run ! j) = Some t)"
  proof (intro allI impI conjI)
    fix j assume j: "j < length ss"
      and d: "\<not> (nonEmpty (s_description (ss ! j)) \<and> \<not> c_forceAI config)
              \<and> apiKey env \<noteq> None \<and> stepParts config arts frames (files w) j \<noteq> []"
    from d have d1: "\<not> (nonEmpty (s_description (ss ! j)) \<and> \<not> c_forceAI config)"
      and d2: "apiKey env \<noteq> None"
      and d3: "stepParts config arts frames (files w) (0 + j) \<noteq> []"
      by simp_all
    from describeSteps_due [OF j d1 d2 d3]
    show "GenerateText (stepPrompt config (ss ! j)) (stepParts config arts frames (files w) j)
            \<in> set (events (snd ?run))"
      by simp
    fix t assume t: "\<forall>evs. generateText env evs (stepPrompt config (ss ! j))
                              (stepParts config arts frames (files w) j) = Text t"
    have d3': "stepParts config arts frames (files (?before j)) j \<noteq> []"
      using d3 by (simp add: fb)
    have t': "\<And>evs. generateText env evs (stepPrompt config (ss ! j))
                       (stepParts config arts frames (files (?before j)) j) = Text t"
      using t by (simp add: fb)
    from describeStep_due(2) [OF d1 d2 d3' t']
    show "d_text (fst ?run ! j) = Some t"
      by (simp add: nth [OF j])
  qed
  have 6: "\<forall>j < length ss.
             nonEmpty (s_description (ss ! j)) \<and> \<not> c_forceAI config \<longrightarrow>
               d_text (fst ?run ! j) = s_description (ss ! j)"
    by (simp add: nth describeStep_def)
  have 7: "c_steps config = Some ss \<and> arts = artifacts w \<longrightarrow>
             ds_steps (fst (generateDescriptions config env frames w)) = fst ?run
             \<and> (\<not> nonEmpty (c_description config) \<and> apiKey env \<noteq> None
                \<and> overallParts config arts (files w) \<noteq> [] \<longrightarrow>
                  GenerateText (overallPrompt config) (overallParts config arts (files w))
                    \<in> set (events (snd (generateDescriptions config env frames w)))
                  \<and> (\<forall>t. (\<forall>evs. generateText env evs (overallPrompt config)
                                    (overallParts config arts (files w)) = Text t) \<longrightarrow>
                           ds_description (fst (generateDescriptions config env frames w))
                             = Some t))"
  proof (intro impI conjI allI)
    assume a: "c_steps config = Some ss \<and> arts = artifacts w"
    then have st: "c_steps config = Some ss" and ar: "artifacts w = arts" by simp_all
    note G = generateDescriptions_parts [OF st, of env frames w, unfolded ar]
    show "ds_steps (fst (generateDescriptions config env frames w)) = fst ?run"
      by (rule G(1))
    assume o: "\<not> nonEmpty (c_description config) \<and> apiKey env \<noteq> None
                \<and> overallParts config arts (files w) \<noteq> []"
    have fr: "files (snd ?run) = files w" by (simp add: describeSteps_keeps)
    from o have o1: "\<not> nonEmpty (c_description config)" and o2: "apiKey env \<noteq> None"
      and o3: "overallParts config arts (files (snd ?run)) \<noteq> []"
      by (simp_all add: fr)
    from describeOverall_due(1) [OF o1 o2 o3]
    show "GenerateText (overallPrompt config) (overallParts config arts (files w))
            \<in> set (events (snd (generateDescriptions config env frames w)))"
      by (simp add: G(3) fr)
    fix t assume "\<forall>evs. generateText env evs (overallPrompt config)
                           (overallParts config arts (files w)) = Text t"
    then have t': "\<And>evs. generateText env evs (overallPrompt config)
                       (overallParts config arts (files (snd ?run))) = Text t"
      by (simp add: fr)
    from describeOverall_due(2) [OF o1 o2 o3 t']
    show "ds_description (fst (generateDescriptions config env frames w)) = Some t"
      by (simp add: G(2))
  qed
  from 1 2 3 4 5 6 7 show ?thesis by (intro conjI)
qed

text \<open>
  Two steps with one screenshot each, the first with a manual description, in a run
  that regenerates; the service fails on the image of the first step only. The first
  entry falls back to the manual description, the second step and the overall
  description are generated.
\<close>

lemma cfgTwo_fields:
  "c_forceAI cfgTwo" "c_clientRequest cfgTwo = None" "c_description cfgTwo = None"
  "c_maxScreenshotsPerStep cfgTwo = Some 10" "c_steps cfgTwo = Some stepsTwo"
  by (simp_all add: cfgTwo_def cfgS_def)

lemma mimeType_examples:
  "mimeType ''/home/u/review-reports/artifacts/a.png'' = ''image/png''"
  "mimeType ''/home/u/review-reports/artifacts/b.png'' = ''image/png''"
  by code_simp+

lemma stepImages_worldTwo:
  "stepImages cfgTwo (artifacts worldTwo) [] 0 = [''/home/u/review-reports/artifacts/a.png'']"
  "stepImages cfgTwo (artifacts worldTwo) [] 1 = [''/home/u/review-reports/artifacts/b.png'']"
  "stepImages cfgTwo (artifacts worldTwo) [] (Suc 0)
     = [''/home/u/review-reports/artifacts/b.png'']"
  by (simp_all add: stepImages_def stepArtifacts_def worldTwo_def cfgTwo_fields)

lemma files_worldTwo:
  "fileExists (files worldTwo) ''/home/u/review-reports/artifacts/a.png''"
  "fileExists (files worldTwo) ''/home/u/review-reports/artifacts/b.png''"
  by (simp_all add: worldTwo_def fileExists_def)

lemma parts_worldTwo:
  "stepParts cfgTwo (artifacts worldTwo) [] (files worldTwo) (Suc 0)
     = [(''image/png'', ''/home/u/review-reports/artifacts/b.png'')]"
  "overallParts cfgTwo (artifacts worldTwo) (files worldTwo)
     = [(''image/png'', ''/home/u/review-reports/artifacts/a.png''),
        (''image/png'', ''/home/u/review-reports/artifacts/b.png'')]"
proof -
  show "stepParts cfgTwo (artifacts worldTwo) [] (files worldTwo) (Suc 0)
     = [(''image/png'', ''/home/u/review-reports/artifacts/b.png'')]"
    by (simp add: stepParts_def stepImages_worldTwo imageParts_def files_worldTwo
          mimeType_examples cfgTwo_fields)
  have "take 5 (map r_path (filter (\<lambda>a. r_type a = ''screenshot'') (artifacts worldTwo)))
          = [''/home/u/review-reports/artifacts/a.png'', ''/home/u/review-reports/artifacts/b.png'']"
    by (simp add: worldTwo_def)
  then show "overallParts cfgTwo (artifacts worldTwo) (files worldTwo)
     = [(''image/png'', ''/home/u/review-reports/artifacts/a.png''),
        (''image/png'', ''/home/u/review-reports/artifacts/b.png'')]"
    by (simp add: overallParts_def imageParts_def files_worldTwo mimeType_examples cfgTwo_fields)
qed

lemma generate_first_fails:
  "fst (generateAIDescription envAI cfgTwo [''/home/u/review-reports/artifacts/a.png''] [] sc
          worldTwo)
     = Inl (Error ''AI generation failed: Internal error'')"
  by (simp add: generateAIDescription_def imageParts_def mimeType_examples files_worldTwo
        generateWithRetry_def callService_def pickyService_def isRateLimit_def envAI_def
        okEnv_def cfgTwo_fields)

theorem step_failure_is_isolated_witness:
  "map d_text (fst (describeSteps cfgTwo envAI (artifacts worldTwo) [] 0 stepsTwo worldTwo))
     = [Some ''The start page.'', Some ''A page.'']
   \<and> GenerateText (stepPrompt cfgTwo (stepsTwo ! 1))
        [(''image/png'', ''/home/u/review-reports/artifacts/b.png'')]
        \<in> set (events (snd (describeSteps cfgTwo envAI (artifacts worldTwo) [] 0 stepsTwo worldTwo)))
   \<and> ds_description (fst (generateDescriptions cfgTwo envAI [] worldTwo)) = Some ''A page.''"
proof -
  let ?arts = "artifacts worldTwo"
  let ?run = "describeSteps cfgTwo envAI ?arts [] 0 stepsTwo worldTwo"
  let ?ds = "fst ?run"
  have s0: "s_description (stepsTwo ! 0) = Some ''The start page.''" "s_name (stepsTwo ! 0) = ''First''"
    and s1: "s_description (stepsTwo ! Suc 0) = None"
    and len: "length stepsTwo = 2"
    by (simp_all add: stepsTwo_def)
  have key: "apiKey envAI \<noteq> None" by (simp add: envAI_def)
  have h1: "0 < length stepsTwo" by (simp add: len)
  have h2: "\<not> (nonEmpty (s_description (stepsTwo ! 0)) \<and> \<not> c_forceAI cfgTwo)"
    by (simp add: cfgTwo_fields)
  have h3: "stepImages cfgTwo ?arts [] 0 \<noteq> []" by (simp add: stepImages_worldTwo)
  have h4: "fst (generateAIDescription envAI cfgTwo (stepImages cfgTwo ?arts [] 0)
                (orElse (c_clientRequest cfgTwo) []) (''Step: '' @ s_name (stepsTwo ! 0))
                (snd (describeSteps cfgTwo envAI ?arts [] 0 (take 0 stepsTwo) worldTwo)))
            = Inl (Error ''AI generation failed: Internal error'')"
    by (simp add: stepImages_worldTwo cfgTwo_fields generate_first_fails)
  note T = step_failure_is_isolated [OF h1 h2 h3 h4]
  have l: "length ?ds = 2" using T len by simp
  have d0: "d_text (?ds ! 0) = Some ''The start page.''"
    using T s0 by simp
  have due: "\<not> (nonEmpty (s_description (stepsTwo ! 1)) \<and> \<not> c_forceAI cfgTwo)
             \<and> apiKey envAI \<noteq> None \<and> stepParts cfgTwo ?arts [] (files worldTwo) 1 \<noteq> []"
    using key by (simp add: s1 parts_worldTwo)
  have ans: "\<forall>evs. generateText envAI evs (stepPrompt cfgTwo (stepsTwo ! 1))
                      (stepParts cfgTwo ?arts [] (files worldTwo) 1) = Text ''A page.''"
    by (simp add: parts_worldTwo envAI_def pickyService_def)
  have one: "1 < length stepsTwo" by (simp add: len)
  from T one due have
    ev: "GenerateText (stepPrompt cfgTwo (stepsTwo ! 1)) (stepParts cfgTwo ?arts [] (files worldTwo) 1)
           \<in> set (events (snd ?run))"
    and tx: "\<forall>t. (\<forall>evs. generateText envAI evs (stepPrompt cfgTwo (stepsTwo ! 1))
                          (stepParts cfgTwo ?arts [] (files worldTwo) 1) = Text t) \<longrightarrow>
                 d_text (?ds ! 1) = Some t"
    by blast+
  from tx ans have d1: "d_text (?ds ! 1) = Some ''A page.''" by blast
  have texts: "map d_text ?ds = [Some ''The start page.'', Some ''A page.'']"
  proof (rule nth_equalityI)
    show "length (map d_text ?ds) = length [Some ''The start page.'', Some ''A page.'']"
      using l by simp
    fix k assume "k < length (map d_text ?ds)"
    then have "k = 0 \<or> k = 1" using l by auto
    then show "map d_text ?ds ! k = [Some ''The start page.'', Some ''A page.''] ! k"
      using d0 d1 l by auto
  qed
  have st: "c_steps cfgTwo = Some stepsTwo \<and> ?arts = artifacts worldTwo"
    by (simp add: cfgTwo_fields)
  have odue: "\<not> nonEmpty (c_description cfgTwo) \<and> apiKey envAI \<noteq> None
              \<and> overallParts cfgTwo ?arts (files worldTwo) \<noteq> []"
    using key by (simp add: cfgTwo_fields parts_worldTwo)
  have oans: "\<forall>evs. generateText envAI evs (overallPrompt cfgTwo)
                       (overallParts cfgTwo ?arts (files worldTwo)) = Text ''A page.''"
    by (simp add: parts_worldTwo envAI_def pickyService_def)
  from T st odue have
    "\<forall>t. (\<forall>evs. generateText envAI evs (overallPrompt cfgTwo)
                   (overallParts cfgTwo ?arts (files worldTwo)) = Text t) \<longrightarrow>
          ds_description (fst (generateDescriptions cfgTwo envAI [] worldTwo)) = Some t"
    by blast
  with oans have ov: "ds_description (fst (generateDescriptions cfgTwo envAI [] worldTwo))
                        = Some ''A page.''"
    by blast
  from texts ev ov show ?thesis by (simp add: parts_worldTwo)
qed

end
